theory Spec2Isabelle
  imports Complex_Main "HOL-Library.AList"
begin

section \<open>Values, records and data frames\<close>

text \<open>
  The enrichment stage of the pipeline is \<^verbatim>\<open>src/Processing/add_eval.py\<close>. It works on a
  pandas DataFrame of move records. A cell of a frame is a Python value; the ones the
  stage reads or writes are modelled by \<open>val\<close>. \<open>VNone\<close> stands for the null marker
  (\<^verbatim>\<open>None\<close>, which pandas may store as NaN), \<open>VFloat\<close> carries the exact quotient of a
  float division (the rounding to a double is not modelled), \<open>VNaT\<close> is the missing
  datetime or period.
\<close>

record timestamp =
  ts_year :: int
  ts_month :: nat
  ts_day :: nat
  ts_time :: nat

datatype val =
    VNone
  | VStr string
  | VInt int
  | VFloat rat
  | VTimestamp timestamp
  | VPeriod int
  | VNaT

text \<open>
  A record (row) maps column names to cells, in column order. A frame has its column
  index and its rows; it carries the default RangeIndex, so that the label
  \<^verbatim>\<open>iterrows\<close> yields with a row is the row's position. A cell that a row does not
  hold reads as the null marker.
\<close>

type_synonym row = "(string \<times> val) list"

record frame =
  columns :: "string list"
  rows :: "row list"

definition cell :: "row \<Rightarrow> string \<Rightarrow> val" where
  "cell r c = (case map_of r c of None \<Rightarrow> VNone | Some v \<Rightarrow> v)"

text \<open>\<^verbatim>\<open>df[c] = values\<close>: the column is replaced in place, or appended as the last one.\<close>

definition add_column :: "string \<Rightarrow> string list \<Rightarrow> string list" where
  "add_column c cs = (if c \<in> set cs then cs else cs @ [c])"

definition assign_column :: "string \<Rightarrow> val list \<Rightarrow> frame \<Rightarrow> frame" where
  "assign_column c vs df =
     \<lparr>columns = add_column c (columns df),
      rows = map (\<lambda>(r, v). AList.update c v r) (zip (rows df) vs)\<rparr>"

text \<open>\<^verbatim>\<open>df[mask]\<close>: the rows whose mask entry is true, in their order.\<close>

definition select_rows :: "bool list \<Rightarrow> frame \<Rightarrow> frame" where
  "select_rows keep df =
     \<lparr>columns = columns df, rows = map fst (filter snd (zip (rows df) keep))\<rparr>"

text \<open>\<^verbatim>\<open>df.drop(columns=[c])\<close>.\<close>

definition drop_column :: "string \<Rightarrow> frame \<Rightarrow> frame" where
  "drop_column c df =
     \<lparr>columns = removeAll c (columns df), rows = map (AList.delete c) (rows df)\<rparr>"

section \<open>Errors, effects and the libraries\<close>

text \<open>
  An exception is a value; every constructor is a subclass of Python's \<open>Exception\<close>.
  The payload is what \<^verbatim>\<open>str(e)\<close> prints.
\<close>

datatype error =
    ValueError string
  | KeyError string
  | TypeError string
  | LibraryError string

fun str_of_error :: "error \<Rightarrow> string" where
  "str_of_error (ValueError m) = m"
| "str_of_error (KeyError m) = m"
| "str_of_error (TypeError m) = m"
| "str_of_error (LibraryError m) = m"

text \<open>
  What the stage does to the outside world, in order: the lines it prints and the calls
  it makes to the engine wrapper (the constructor, \<^verbatim>\<open>set_fen_position\<close>,
  \<^verbatim>\<open>get_evaluation\<close>). A call is logged when it is made, whether or not it raises.
\<close>

datatype event =
    Print string
  | StockfishStart string int
  | SetFenPosition val
  | GetEvaluation

text \<open>The dictionary \<^verbatim>\<open>get_evaluation\<close> returns: \<^verbatim>\<open>{"type": ..., "value": ...}\<close>.\<close>

record evaluation =
  ev_type :: string
  ev_value :: int

text \<open>
  The stage calls three libraries that are not part of the repository: python-chess,
  pandas and the stockfish wrapper. Their functions are parameters of the model: \<open>'b\<close>
  is the type of boards, \<open>'e\<close> the state of the engine process. A function that can
  raise returns a sum; the engine's methods also return the engine's next state.
  \<^item> \<open>chess_Board\<close> is \<^verbatim>\<open>chess.Board(fen)\<close>, \<open>Board_is_valid\<close> is \<^verbatim>\<open>board.is_valid()\<close>;
  \<^item> \<open>pd_to_datetime\<close> is \<^verbatim>\<open>pd.to_datetime\<close> on one cell (\<open>None\<close> is NaT);
  \<^item> \<open>pd_Period\<close> is \<^verbatim>\<open>pd.Period(s, freq='M')\<close>, a year and a month (\<open>None\<close> is NaT);
  \<^item> \<open>Stockfish\<close> is the constructor \<^verbatim>\<open>Stockfish(path=..., depth=...)\<close>.
\<close>

type_synonym year_month = "int \<times> nat"

record ('b, 'e) library =
  chess_Board :: "val \<Rightarrow> error + 'b"
  Board_is_valid :: "'b \<Rightarrow> error + bool"
  pd_to_datetime :: "val \<Rightarrow> error + timestamp option"
  pd_Period :: "string \<Rightarrow> error + year_month option"
  Stockfish :: "string \<Rightarrow> int \<Rightarrow> error + 'e"
  set_fen_position :: "'e \<Rightarrow> val \<Rightarrow> error option \<times> 'e"
  get_evaluation :: "'e \<Rightarrow> (error + evaluation) \<times> 'e"

definition STOCK_PATH :: string where
  "STOCK_PATH =
     ''C:'' @ [CHR 0x5C] @ ''Tools'' @ [CHR 0x5C] @ ''stockfish'' @ [CHR 0x5C] @
     ''stockfish-windows-x86-64-avx2.exe''"

section \<open>Formatting integers\<close>

text \<open>Python's \<^verbatim>\<open>str\<close> on an integer, as an f-string prints it.\<close>

fun str_nat :: "nat \<Rightarrow> string" where
  "str_nat n =
     (if n < 10 then [''0123456789'' ! n]
      else str_nat (n div 10) @ [''0123456789'' ! (n mod 10)])"

declare str_nat.simps [simp del]

definition str_int :: "int \<Rightarrow> string" where
  "str_int i = (if i < 0 then CHR ''-'' # str_nat (nat (- i)) else str_nat (nat i))"

section \<open>The FEN validator\<close>

text \<open>
  \<^verbatim>\<open>is_valid_fen\<close>, lines 18 to 24. \<open>is_valid_fen_body\<close> is the body of the \<^verbatim>\<open>try\<close>; the
  bare \<^verbatim>\<open>except\<close> turns every exception into \<^verbatim>\<open>False\<close>.
\<close>

definition is_valid_fen_body :: "('b, 'e) library \<Rightarrow> val \<Rightarrow> error + bool" where
  "is_valid_fen_body L fen =
     (case chess_Board L fen of
        Inl e \<Rightarrow> Inl e
      | Inr board \<Rightarrow> Board_is_valid L board)"

definition is_valid_fen :: "('b, 'e) library \<Rightarrow> val \<Rightarrow> error + bool" where
  "is_valid_fen L fen =
     (case is_valid_fen_body L fen of
        Inl e \<Rightarrow> Inr False
      | Inr b \<Rightarrow> Inr b)"

section \<open>The date filter\<close>

text \<open>
  Frames are objects: a variable holds the address of a frame in the heap, and an
  assignment to a column mutates the frame at that address. \<^verbatim>\<open>copy\<close>, \<^verbatim>\<open>df[mask]\<close> and
  \<^verbatim>\<open>drop\<close> make a new frame.
\<close>

type_synonym addr = nat
type_synonym heap = "frame list"

definition alloc :: "frame \<Rightarrow> heap \<Rightarrow> addr \<times> heap" where
  "alloc f h = (length h, h @ [f])"

text \<open>
  A monthly period is stored and compared as its ordinal, the number of months since
  1970-01. \<^verbatim>\<open>.dt.to_period('M')\<close> keeps the year and the month of a timestamp.
\<close>

definition ordinal :: "year_month \<Rightarrow> int" where
  "ordinal p = (fst p - 1970) * 12 + int (snd p) - 1"

definition to_period_M :: "timestamp \<Rightarrow> int" where
  "to_period_M ts = ordinal (ts_year ts, ts_month ts)"

text \<open>Line 53: \<^verbatim>\<open>df['date'] = pd.to_datetime(df['date'])\<close>. The first cell that fails raises.\<close>

fun to_datetime_cells :: "('b, 'e) library \<Rightarrow> val list \<Rightarrow> error + val list" where
  "to_datetime_cells L [] = Inr []"
| "to_datetime_cells L (v # vs) =
     (case pd_to_datetime L v of
        Inl e \<Rightarrow> Inl e
      | Inr t \<Rightarrow>
          (case to_datetime_cells L vs of
             Inl e \<Rightarrow> Inl e
           | Inr ts \<Rightarrow> Inr ((case t of None \<Rightarrow> VNaT | Some ts' \<Rightarrow> VTimestamp ts') # ts)))"

text \<open>Line 54: \<^verbatim>\<open>df['year_month'] = df['date'].dt.to_period('M')\<close>, on one cell.\<close>

definition year_month_of :: "val \<Rightarrow> val" where
  "year_month_of v = (case v of VTimestamp ts \<Rightarrow> VPeriod (to_period_M ts) | _ \<Rightarrow> VNaT)"

text \<open>
  The comparisons of lines 58 and 61 on one cell of \<^verbatim>\<open>year_month\<close>. A comparison with
  NaT on either side is false.
\<close>

definition period_ge :: "val \<Rightarrow> year_month option \<Rightarrow> bool" where
  "period_ge v p = (case (v, p) of (VPeriod a, Some b) \<Rightarrow> a \<ge> ordinal b | _ \<Rightarrow> False)"

definition period_le :: "val \<Rightarrow> year_month option \<Rightarrow> bool" where
  "period_le v p = (case (v, p) of (VPeriod a, Some b) \<Rightarrow> a \<le> ordinal b | _ \<Rightarrow> False)"

text \<open>Lines 56 to 58 and 59 to 61: one bound, when it is given.\<close>

definition filter_start ::
  "('b, 'e) library \<Rightarrow> string option \<Rightarrow> addr \<Rightarrow> heap \<Rightarrow> (error + addr) \<times> heap" where
  "filter_start L start_date df h =
     (case start_date of
        None \<Rightarrow> (Inr df, h)
      | Some s \<Rightarrow>
          (case pd_Period L s of
             Inl e \<Rightarrow> (Inl e, h)
           | Inr start_period \<Rightarrow>
               (let keep = map (\<lambda>r. period_ge (cell r ''year_month'') start_period) (rows (h ! df));
                    (df', h') = alloc (select_rows keep (h ! df)) h
                in (Inr df', h'))))"

definition filter_end ::
  "('b, 'e) library \<Rightarrow> string option \<Rightarrow> addr \<Rightarrow> heap \<Rightarrow> (error + addr) \<times> heap" where
  "filter_end L end_date df h =
     (case end_date of
        None \<Rightarrow> (Inr df, h)
      | Some s \<Rightarrow>
          (case pd_Period L s of
             Inl e \<Rightarrow> (Inl e, h)
           | Inr end_period \<Rightarrow>
               (let keep = map (\<lambda>r. period_le (cell r ''year_month'') end_period) (rows (h ! df));
                    (df', h') = alloc (select_rows keep (h ! df)) h
                in (Inr df', h'))))"

text \<open>Lines 49 to 63. \<^verbatim>\<open>reset_index(drop=True)\<close> restores the RangeIndex the model has.\<close>

definition date_filter ::
  "('b, 'e) library \<Rightarrow> string option \<Rightarrow> string option \<Rightarrow> addr \<Rightarrow> heap
     \<Rightarrow> (error + addr) \<times> heap" where
  "date_filter L start_date end_date df h =
     (if start_date \<noteq> None \<or> end_date \<noteq> None then
        if ''date'' \<notin> set (columns (h ! df)) then
          (Inl (ValueError ''DataFrame must have 'date' column for date filtering''), h)
        else
          (case to_datetime_cells L (map (\<lambda>r. cell r ''date'') (rows (h ! df))) of
             Inl e \<Rightarrow> (Inl e, h)
           | Inr dates \<Rightarrow>
               (let h1 = h[df := assign_column ''date'' dates (h ! df)];
                    year_month = map (\<lambda>r. year_month_of (cell r ''date'')) (rows (h1 ! df));
                    h2 = h1[df := assign_column ''year_month'' year_month (h1 ! df)]
                in case filter_start L start_date df h2 of
                     (Inl e, h3) \<Rightarrow> (Inl e, h3)
                   | (Inr df3, h3) \<Rightarrow>
                       (case filter_end L end_date df3 h3 of
                          (Inl e, h4) \<Rightarrow> (Inl e, h4)
                        | (Inr df4, h4) \<Rightarrow>
                            (let (df5, h5) = alloc (drop_column ''year_month'' (h4 ! df4)) h4
                             in (Inr df5, h5)))))
      else (Inr df, h))"

section \<open>The enrichment loop\<close>

text \<open>Lines 87 to 90: the value recorded for an engine response.\<close>

definition eval_value :: "evaluation \<Rightarrow> val" where
  "eval_value evaluation =
     (if ev_type evaluation = ''cp'' then VFloat (of_int (ev_value evaluation) / 100)
      else VStr (''M'' @ str_int (ev_value evaluation)))"

text \<open>The variables of the loop: the list of evaluations, the counter, the engine, the effects.\<close>

record 'e loop_state =
  evals :: "val list"
  invalid_count :: nat
  stockfish :: 'e
  trace :: "event list"

text \<open>
  \<^verbatim>\<open>fen[:50]\<close> in the message of line 77: the first fifty characters of a string (a
  string is the list of its characters); a value of another kind cannot be sliced.
\<close>

definition slice50 :: "val \<Rightarrow> error + string" where
  "slice50 fen =
     (case fen of
        VStr s \<Rightarrow> Inr (take 50 s)
      | _ \<Rightarrow> Inl (TypeError ''object is not subscriptable''))"

text \<open>Lines 94 to 96: the handler of the \<^verbatim>\<open>try\<close>.\<close>

definition on_exception :: "nat \<Rightarrow> error \<Rightarrow> 'e loop_state \<Rightarrow> 'e loop_state" where
  "on_exception index e st =
     st\<lparr>trace := trace st @ [Print (''Error at position '' @ str_nat index @ '': '' @ str_of_error e)],
        evals := evals st @ [VNone]\<rparr>"

text \<open>Lines 82 to 96: the \<^verbatim>\<open>try\<close> statement.\<close>

definition try_evaluate ::
  "('b, 'e) library \<Rightarrow> nat \<Rightarrow> val \<Rightarrow> 'e loop_state \<Rightarrow> 'e loop_state" where
  "try_evaluate L index fen st =
     (case set_fen_position L (stockfish st) fen of
        (Some e, sf1) \<Rightarrow>
          on_exception index e
            (st\<lparr>stockfish := sf1, trace := trace st @ [SetFenPosition fen]\<rparr>)
      | (None, sf1) \<Rightarrow>
          (case get_evaluation L sf1 of
             (Inl e, sf2) \<Rightarrow>
               on_exception index e
                 (st\<lparr>stockfish := sf2, trace := trace st @ [SetFenPosition fen, GetEvaluation]\<rparr>)
           | (Inr evaluation, sf2) \<Rightarrow>
               st\<lparr>stockfish := sf2,
                  trace := trace st @ [SetFenPosition fen, GetEvaluation],
                  evals := evals st @ [eval_value evaluation]\<rparr>))"

text \<open>Lines 98 to 100. \<open>n_total\<close> is the variable \<^verbatim>\<open>total\<close> of line 69.\<close>

definition report_progress :: "nat \<Rightarrow> nat \<Rightarrow> 'e loop_state \<Rightarrow> 'e loop_state" where
  "report_progress n_total index st =
     (if (index + 1) mod 50 = 0 then
        st\<lparr>trace := trace st @
          [Print (''Evaluated '' @ str_nat (index + 1) @ ''/'' @ str_nat n_total @
                  '' positions... ('' @ str_nat (invalid_count st) @ '' invalid)'')]\<rparr>
      else st)"

text \<open>
  Lines 73 to 100: the body of the loop, for the row at \<open>index\<close>. \<^verbatim>\<open>row['fen']\<close> raises
  when the frame has no such column.
\<close>

definition process_row ::
  "('b, 'e) library \<Rightarrow> string list \<Rightarrow> nat \<Rightarrow> nat \<Rightarrow> row \<Rightarrow> 'e loop_state
     \<Rightarrow> error + 'e loop_state" where
  "process_row L cols n_total index r st =
     (if ''fen'' \<notin> set cols then Inl (KeyError ''fen'')
      else
        (let fen = cell r ''fen'' in
         case is_valid_fen L fen of
           Inl e \<Rightarrow> Inl e
         | Inr valid \<Rightarrow>
             if \<not> valid then
               (case slice50 fen of
                  Inl e \<Rightarrow> Inl e
                | Inr s \<Rightarrow>
                    Inr (st\<lparr>trace := trace st @
                              [Print (''Invalid FEN at position '' @ str_nat index @ '': '' @ s @ ''...'')],
                            evals := evals st @ [VNone],
                            invalid_count := invalid_count st + 1\<rparr>))
             else Inr (report_progress n_total index (try_evaluate L index fen st))))"

text \<open>Line 72: \<^verbatim>\<open>for index, row in df.iterrows()\<close>. An exception that escapes the body ends the loop.\<close>

fun iterrows_loop ::
  "('b, 'e) library \<Rightarrow> string list \<Rightarrow> nat \<Rightarrow> nat \<Rightarrow> row list \<Rightarrow> 'e loop_state
     \<Rightarrow> (error + unit) \<times> 'e loop_state" where
  "iterrows_loop L cols n_total index [] st = (Inr (), st)"
| "iterrows_loop L cols n_total index (r # rs) st =
     (case process_row L cols n_total index r st of
        Inl e \<Rightarrow> (Inl e, st)
      | Inr st' \<Rightarrow> iterrows_loop L cols n_total (index + 1) rs st')"

section \<open>The enrichment stage\<close>

text \<open>Line 102: \<^verbatim>\<open>df['eval'] = evals\<close>. pandas refuses a list of another length than the frame.\<close>

definition assign_eval :: "val list \<Rightarrow> frame \<Rightarrow> error + frame" where
  "assign_eval vs df =
     (if length vs \<noteq> length (rows df) then
        Inl (ValueError ''Length of values does not match length of index'')
      else Inr (assign_column ''eval'' vs df))"

text \<open>
  \<^verbatim>\<open>add_eval\<close>, lines 46 to 106. It takes the address of \<^verbatim>\<open>move_df\<close> and the heap, and
  returns the address of the enriched frame or the exception, the heap, and the effects.
\<close>

definition add_eval ::
  "('b, 'e) library \<Rightarrow> addr \<Rightarrow> int \<Rightarrow> string option \<Rightarrow> string option \<Rightarrow> heap
     \<Rightarrow> (error + addr) \<times> heap \<times> event list" where
  "add_eval L move_df depth start_date end_date h =
     (let (df0, h0) = alloc (h ! move_df) h in
      case date_filter L start_date end_date df0 h0 of
        (Inl e, h1) \<Rightarrow> (Inl e, h1, [])
      | (Inr df, h1) \<Rightarrow>
          (case Stockfish L STOCK_PATH depth of
             Inl e \<Rightarrow> (Inl e, h1, [StockfishStart STOCK_PATH depth])
           | Inr sf \<Rightarrow>
               (let n_total = length (rows (h1 ! df));
                    st0 = \<lparr>evals = [], invalid_count = 0, stockfish = sf,
                           trace = [StockfishStart STOCK_PATH depth]\<rparr>
                in case iterrows_loop L (columns (h1 ! df)) n_total 0 (rows (h1 ! df)) st0 of
                     (Inl e, st) \<Rightarrow> (Inl e, h1, trace st)
                   | (Inr u, st) \<Rightarrow>
                       (case assign_eval (evals st) (h1 ! df) of
                          Inl e \<Rightarrow> (Inl e, h1, trace st)
                        | Inr df' \<Rightarrow>
                            (Inr df, h1[df := df'],
                             trace st @
                               [Print (CHR 0x0A # ''Completed: '' @ str_nat n_total @ '' positions''),
                                Print (''Invalid FENs: '' @ str_nat (invalid_count st))])))))"

section \<open>The specification's vocabulary\<close>

text \<open>
  The specification names the evaluation of a record by a tagged union, and says how
  the stage writes it into the \<^verbatim>\<open>eval\<close> column: a number of pawns for a score, a
  mate marker \<^verbatim>\<open>"M<signed-int>"\<close> for a mate distance, the null marker when no
  evaluation is available.
\<close>

datatype evaluation_value = Score rat | MateIn int | Unavailable

fun serialized :: "evaluation_value \<Rightarrow> val" where
  "serialized (Score q) = VFloat q"
| "serialized (MateIn m) = VStr (''M'' @ str_int m)"
| "serialized Unavailable = VNone"

text \<open>
  The specification's date range: a year and a month are within \<open>[start, end]\<close> when
  they are not before \<open>start\<close> and not after \<open>end\<close> in the calendar's order, an omitted
  bound leaving its side open.
\<close>

definition ym_le :: "year_month \<Rightarrow> year_month \<Rightarrow> bool" where
  "ym_le a b = (fst a < fst b \<or> (fst a = fst b \<and> snd a \<le> snd b))"

definition within_range :: "year_month option \<Rightarrow> year_month option \<Rightarrow> year_month \<Rightarrow> bool" where
  "within_range lo hi p =
     ((case lo of None \<Rightarrow> True | Some a \<Rightarrow> ym_le a p) \<and>
      (case hi of None \<Rightarrow> True | Some b \<Rightarrow> ym_le p b))"

definition valid_month :: "nat \<Rightarrow> bool" where
  "valid_month m = (1 \<le> m \<and> m \<le> 12)"

section \<open>Test doubles for the libraries\<close>

text \<open>
  A small instance of the libraries, on which the stage can be run: a parser that knows
  four positions (one of them, the empty board, is not legal), a date parser that knows
  a few dates, and an engine that keeps the positions it was given, raises on one of
  them and answers a mate or a score for the others.
\<close>

definition fen_start :: string where
  "fen_start = ''rnbqkbnr/pppppppp/8/8/8/8/PPPPPPPP/RNBQKBNR w KQkq - 0 1''"

definition fen_e4 :: string where
  "fen_e4 = ''rnbqkbnr/pppppppp/8/8/4P3/8/PPPP1PPP/RNBQKBNR b KQkq - 0 1''"

definition fen_mate :: string where
  "fen_mate = ''6k1/5ppp/8/8/8/8/1r6/r3K3 w - - 0 1''"

definition fen_empty :: string where
  "fen_empty = ''8/8/8/8/8/8/8/8 w - - 0 1''"

definition mock_dates :: "(string \<times> timestamp) list" where
  "mock_dates =
     [(''2023.12.31'', \<lparr>ts_year = 2023, ts_month = 12, ts_day = 31, ts_time = 0\<rparr>),
      (''2024.01.01'', \<lparr>ts_year = 2024, ts_month = 1, ts_day = 1, ts_time = 0\<rparr>),
      (''2024.01.15'', \<lparr>ts_year = 2024, ts_month = 1, ts_day = 15, ts_time = 0\<rparr>),
      (''2024.03.31'', \<lparr>ts_year = 2024, ts_month = 3, ts_day = 31, ts_time = 0\<rparr>),
      (''2024.04.01'', \<lparr>ts_year = 2024, ts_month = 4, ts_day = 1, ts_time = 0\<rparr>)]"

definition mock_periods :: "(string \<times> year_month) list" where
  "mock_periods = [(''2024-01'', (2024, 1)), (''2024-03'', (2024, 3))]"

definition mock_library :: "(string, val list) library" where
  "mock_library =
     \<lparr>chess_Board =
        (\<lambda>v. case v of
           VStr s \<Rightarrow>
             if s = fen_start \<or> s = fen_e4 \<or> s = fen_mate \<or> s = fen_empty then Inr s
             else Inl (ValueError ''invalid fen'')
         | _ \<Rightarrow> Inl (TypeError ''fen is not a string'')),
      Board_is_valid = (\<lambda>b. Inr (b \<noteq> fen_empty)),
      pd_to_datetime =
        (\<lambda>v. case v of
           VNone \<Rightarrow> Inr None
         | VNaT \<Rightarrow> Inr None
         | VTimestamp t \<Rightarrow> Inr (Some t)
         | VStr s \<Rightarrow>
             (case map_of mock_dates s of
                Some t \<Rightarrow> Inr (Some t)
              | None \<Rightarrow> Inl (ValueError ''Unknown datetime string format''))
         | _ \<Rightarrow> Inl (TypeError ''not convertible to datetime'')),
      pd_Period =
        (\<lambda>s. case map_of mock_periods s of
           Some p \<Rightarrow> Inr (Some p)
         | None \<Rightarrow> Inl (ValueError ''Invalid period'')),
      Stockfish = (\<lambda>path depth. Inr []),
      set_fen_position =
        (\<lambda>sf fen. (if fen = VStr fen_e4 then Some (LibraryError ''engine crashed'') else None,
                    fen # sf)),
      get_evaluation =
        (\<lambda>sf. (if sf \<noteq> [] \<and> hd sf = VStr fen_mate
                then Inr \<lparr>ev_type = ''mate'', ev_value = - 3\<rparr>
                else Inr \<lparr>ev_type = ''cp'', ev_value = 250\<rparr>,
                sf))\<rparr>"

text \<open>Four records with a date, and the frame of them.\<close>

definition mock_rows :: "row list" where
  "mock_rows =
     [[(''ply'', VInt 1), (''fen'', VStr fen_start), (''date'', VStr ''2023.12.31'')],
      [(''ply'', VInt 2), (''fen'', VStr fen_e4), (''date'', VStr ''2024.01.15'')],
      [(''ply'', VInt 3), (''fen'', VStr ''not a fen''), (''date'', VStr ''2024.03.31'')],
      [(''ply'', VInt 4), (''fen'', VStr fen_mate), (''date'', VStr ''2024.04.01'')]]"

definition mock_frame :: frame where
  "mock_frame = \<lparr>columns = [''ply'', ''fen'', ''date''], rows = mock_rows\<rparr>"

text \<open>The lines printed, among the effects.\<close>

definition printed :: "event list \<Rightarrow> string list" where
  "printed tr = concat (map (\<lambda>ev. case ev of Print s \<Rightarrow> [s] | _ \<Rightarrow> []) tr)"

text \<open>Fifty records: forty-nine with the starting position, and a last one.\<close>

definition fifty_rows :: "string \<Rightarrow> frame" where
  "fifty_rows last_fen =
     \<lparr>columns = [''fen''],
      rows = replicate 49 [(''fen'', VStr fen_start)] @ [[(''fen'', VStr last_fen)]]\<rparr>"

section \<open>When the engine raises\<close>


section \<open>What the date filter computes\<close>

text \<open>
  The stage's date filter, read off lines 53 to 63 record by record: the \<^verbatim>\<open>date\<close> cell
  as \<^verbatim>\<open>pd.to_datetime\<close> leaves it, the two comparisons on the month of that date, and the
  record as the filter returns it (the date parsed, the helper column dropped).
\<close>

definition parsed_date :: "('b, 'e) library \<Rightarrow> row \<Rightarrow> val" where
  "parsed_date L r =
     (case pd_to_datetime L (cell r ''date'') of
        Inr (Some t) \<Rightarrow> VTimestamp t
      | _ \<Rightarrow> VNaT)"

definition kept_lower :: "('b, 'e) library \<Rightarrow> string option \<Rightarrow> val \<Rightarrow> bool" where
  "kept_lower L start_date ym =
     (case start_date of
        None \<Rightarrow> True
      | Some s \<Rightarrow> (case pd_Period L s of Inl e \<Rightarrow> False | Inr p \<Rightarrow> period_ge ym p))"

definition kept_upper :: "('b, 'e) library \<Rightarrow> string option \<Rightarrow> val \<Rightarrow> bool" where
  "kept_upper L end_date ym =
     (case end_date of
        None \<Rightarrow> True
      | Some s \<Rightarrow> (case pd_Period L s of Inl e \<Rightarrow> False | Inr p \<Rightarrow> period_le ym p))"

definition kept :: "('b, 'e) library \<Rightarrow> string option \<Rightarrow> string option \<Rightarrow> row \<Rightarrow> bool" where
  "kept L start_date end_date r =
     (kept_lower L start_date (year_month_of (parsed_date L r)) \<and>
      kept_upper L end_date (year_month_of (parsed_date L r)))"

definition filtered_row :: "('b, 'e) library \<Rightarrow> row \<Rightarrow> row" where
  "filtered_row L r = AList.delete ''year_month'' (AList.update ''date'' (parsed_date L r) r)"

text \<open>A bound that is given is parsed by \<^verbatim>\<open>pd.Period\<close> without an exception.\<close>

definition bound_parses :: "('b, 'e) library \<Rightarrow> string option \<Rightarrow> bool" where
  "bound_parses L d = (case d of None \<Rightarrow> True | Some s \<Rightarrow> \<not> isl (pd_Period L s))"

text \<open>The frame after lines 53 and 54, and the frame after line 63.\<close>

definition with_year_month :: "('b, 'e) library \<Rightarrow> frame \<Rightarrow> frame" where
  "with_year_month L f =
     \<lparr>columns = add_column ''year_month'' (add_column ''date'' (columns f)),
      rows = map (\<lambda>r. AList.update ''year_month'' (year_month_of (parsed_date L r))
                       (AList.update ''date'' (parsed_date L r) r)) (rows f)\<rparr>"

definition filtered_frame ::
  "('b, 'e) library \<Rightarrow> string option \<Rightarrow> string option \<Rightarrow> frame \<Rightarrow> frame" where
  "filtered_frame L start_date end_date f =
     \<lparr>columns = removeAll ''year_month'' (columns f),
      rows = map (filtered_row L) (filter (kept L start_date end_date) (rows f))\<rparr>"

text \<open>
  The conditions under which the filter of lines 49 to 63 returns a frame, the frame it
  returns, and the input records that survive it.
\<close>

definition date_filter_passes ::
  "('b, 'e) library \<Rightarrow> string option \<Rightarrow> string option \<Rightarrow> frame \<Rightarrow> bool" where
  "date_filter_passes L start_date end_date f =
     ((start_date = None \<and> end_date = None) \<or>
      (''date'' \<in> set (columns f) \<and>
       list_all (\<lambda>r. \<not> isl (pd_to_datetime L (cell r ''date''))) (rows f) \<and>
       bound_parses L start_date \<and> bound_parses L end_date))"

definition date_filtered ::
  "('b, 'e) library \<Rightarrow> string option \<Rightarrow> string option \<Rightarrow> frame \<Rightarrow> frame" where
  "date_filtered L start_date end_date f =
     (if start_date = None \<and> end_date = None then f
      else filtered_frame L start_date end_date f)"

definition surviving_rows ::
  "('b, 'e) library \<Rightarrow> string option \<Rightarrow> string option \<Rightarrow> frame \<Rightarrow> row list" where
  "surviving_rows L start_date end_date f =
     (if start_date = None \<and> end_date = None then rows f
      else filter (kept L start_date end_date) (rows f))"

text \<open>The \<^verbatim>\<open>fen\<close> of a record is a string, as the annotation \<^verbatim>\<open>fen: str\<close> says.\<close>

definition has_fen_string :: "row \<Rightarrow> bool" where
  "has_fen_string r = (case cell r ''fen'' of VStr s \<Rightarrow> True | _ \<Rightarrow> False)"

text \<open>
  The specification's reading of the filter: a record is retained when its date has a
  year and a month, and these are within the range. \<open>bound_is\<close> says that a bound is
  omitted, or is parsed to a year and a month of the calendar.
\<close>

definition retained ::
  "('b, 'e) library \<Rightarrow> year_month option \<Rightarrow> year_month option \<Rightarrow> row \<Rightarrow> bool" where
  "retained L lo hi r =
     (case pd_to_datetime L (cell r ''date'') of
        Inr (Some ts) \<Rightarrow> within_range lo hi (ts_year ts, ts_month ts)
      | _ \<Rightarrow> False)"

definition bound_is :: "('b, 'e) library \<Rightarrow> string option \<Rightarrow> year_month option \<Rightarrow> bool" where
  "bound_is L d b =
     (case d of
        None \<Rightarrow> b = None
      | Some s \<Rightarrow>
          (case b of
             None \<Rightarrow> False
           | Some p \<Rightarrow> pd_Period L s = Inr (Some p) \<and> valid_month (snd p)))"

definition month_of_date_valid :: "('b, 'e) library \<Rightarrow> row \<Rightarrow> bool" where
  "month_of_date_valid L r =
     (case pd_to_datetime L (cell r ''date'') of
        Inr (Some ts) \<Rightarrow> valid_month (ts_month ts)
      | _ \<Rightarrow> True)"

definition month_before :: "year_month \<Rightarrow> year_month" where
  "month_before p = (if snd p = 1 then (fst p - 1, 12) else (fst p, snd p - 1))"

definition month_after :: "year_month \<Rightarrow> year_month" where
  "month_after p = (if snd p = 12 then (fst p + 1, 1) else (fst p, snd p + 1))"

text \<open>
  More frames for the test doubles: one without a \<^verbatim>\<open>date\<close> column, one with a date
  that cannot be parsed, one that already has a column named \<^verbatim>\<open>year_month\<close>.
\<close>

definition mock_frame_no_date :: frame where
  "mock_frame_no_date =
     \<lparr>columns = [''ply'', ''fen''], rows = [[(''ply'', VInt 1), (''fen'', VStr fen_start)]]\<rparr>"

definition mock_frame_bad_date :: frame where
  "mock_frame_bad_date =
     \<lparr>columns = [''fen'', ''date''],
      rows = [[(''fen'', VStr fen_start), (''date'', VStr ''2024.01.15'')],
              [(''fen'', VStr fen_e4), (''date'', VStr ''yesterday'')]]\<rparr>"

definition mock_frame_ym :: frame where
  "mock_frame_ym =
     \<lparr>columns = [''fen'', ''date'', ''year_month''],
      rows = [[(''fen'', VStr fen_start), (''date'', VStr ''2024.01.15''),
               (''year_month'', VStr ''January'')]]\<rparr>"

section \<open>What the loop records\<close>

text \<open>
  The loop of lines 72 to 100, read as a function of the records and of the engine,
  for records whose \<^verbatim>\<open>fen\<close> is a string: \<open>row_outcome\<close> is what the \<^verbatim>\<open>try\<close> statement
  appends for a position and the state in which it leaves the engine, \<open>row_step\<close> is
  the same for a record (an invalid position gives the null marker and does not touch
  the engine), \<open>loop_evals\<close> is the list \<^verbatim>\<open>evals\<close> after the loop and the engine's last
  state.
\<close>

definition row_outcome :: "('b, 'e) library \<Rightarrow> val \<Rightarrow> 'e \<Rightarrow> val \<times> 'e" where
  "row_outcome L fen sf =
     (case set_fen_position L sf fen of
        (Some e, sf1) \<Rightarrow> (VNone, sf1)
      | (None, sf1) \<Rightarrow>
          (case get_evaluation L sf1 of
             (Inl e, sf2) \<Rightarrow> (VNone, sf2)
           | (Inr ev, sf2) \<Rightarrow> (eval_value ev, sf2)))"

definition row_step :: "('b, 'e) library \<Rightarrow> row \<Rightarrow> 'e \<Rightarrow> val \<times> 'e" where
  "row_step L r sf =
     (if is_valid_fen L (cell r ''fen'') = Inr True then row_outcome L (cell r ''fen'') sf
      else (VNone, sf))"

fun loop_evals :: "('b, 'e) library \<Rightarrow> row list \<Rightarrow> 'e \<Rightarrow> val list \<times> 'e" where
  "loop_evals L [] sf = ([], sf)"
| "loop_evals L (r # rs) sf =
     (let (v, sf1) = row_step L r sf; (vs, sf2) = loop_evals L rs sf1 in (v # vs, sf2))"

text \<open>The column \<^verbatim>\<open>eval\<close> of a frame.\<close>

definition eval_column :: "frame \<Rightarrow> val list" where
  "eval_column f = map (\<lambda>r. cell r ''eval'') (rows f)"



definition mock_frame_null_fen :: frame where
  "mock_frame_null_fen =
     \<lparr>columns = [''ply'', ''fen''],
      rows = [[(''ply'', VInt 1), (''fen'', VStr fen_start)],
              [(''ply'', VInt 2), (''fen'', VNone)],
              [(''ply'', VInt 3), (''fen'', VStr fen_mate)]]\<rparr>"

definition mock_frame_bad_fen :: frame where
  "mock_frame_bad_fen =
     \<lparr>columns = [''ply'', ''fen''],
      rows = [[(''ply'', VInt 1), (''fen'', VStr fen_start)],
              [(''ply'', VInt 2), (''fen'', VStr ''not a fen'')],
              [(''ply'', VInt 3), (''fen'', VStr fen_mate)]]\<rparr>"

section \<open>Decimal numerals are unambiguous\<close>

lemma str_nat_nonempty: "str_nat n \<noteq> []"
  by (subst str_nat.simps) simp

lemma digit_inj: "a < 10 \<Longrightarrow> b < 10 \<Longrightarrow> ''0123456789'' ! a = ''0123456789'' ! b \<Longrightarrow> a = (b::nat)"
proof -
  assume a: "a < 10" and b: "b < 10" and e: "''0123456789'' ! a = ''0123456789'' ! b"
  have d: "distinct ''0123456789''" by simp
  have "a < length ''0123456789''" "b < length ''0123456789''" using a b by simp_all
  with d e show ?thesis by (simp only: nth_eq_iff_index_eq)
qed

lemma str_nat_inj: "str_nat n = str_nat m \<Longrightarrow> n = m"
proof (induction n arbitrary: m rule: str_nat.induct)
  case (1 n)
  show ?case
  proof (cases "n < 10")
    case True
    then have sn: "str_nat n = [''0123456789'' ! n]" by (subst str_nat.simps) simp
    show ?thesis
    proof (cases "m < 10")
      case True
      then have "str_nat m = [''0123456789'' ! m]" by (subst str_nat.simps) simp
      with sn "1.prems" have "''0123456789'' ! n = ''0123456789'' ! m" by simp
      then show ?thesis by (rule digit_inj[OF \<open>n < 10\<close> True])
    next
      case False
      then have "str_nat m = str_nat (m div 10) @ [''0123456789'' ! (m mod 10)]"
        by (subst str_nat.simps) simp
      with sn "1.prems" have "str_nat (m div 10) = []" by simp
      then show ?thesis using str_nat_nonempty by blast
    qed
  next
    case False
    then have sn: "str_nat n = str_nat (n div 10) @ [''0123456789'' ! (n mod 10)]"
      by (subst str_nat.simps) simp
    show ?thesis
    proof (cases "m < 10")
      case True
      then have "str_nat m = [''0123456789'' ! m]" by (subst str_nat.simps) simp
      with sn "1.prems" have "str_nat (n div 10) = []" by simp
      then show ?thesis using str_nat_nonempty by blast
    next
      case m: False
      then have sm: "str_nat m = str_nat (m div 10) @ [''0123456789'' ! (m mod 10)]"
        by (subst str_nat.simps) simp
      from sn sm "1.prems" have p: "str_nat (n div 10) = str_nat (m div 10)"
        and l: "''0123456789'' ! (n mod 10) = ''0123456789'' ! (m mod 10)" by simp_all
      from "1.IH"[OF False p] have d: "n div 10 = m div 10" .
      have "n mod 10 = m mod 10" by (rule digit_inj[OF _ _ l]) simp_all
      with d show ?thesis by (metis div_mult_mod_eq)
    qed
  qed
qed

lemma str_nat_digits: "set (str_nat n) \<subseteq> set ''0123456789''"
proof (induction n rule: str_nat.induct)
  case (1 n)
  show ?case
  proof (cases "n < 10")
    case True
    then have "str_nat n = [''0123456789'' ! n]" by (subst str_nat.simps) simp
    moreover have "''0123456789'' ! n \<in> set ''0123456789''"
      by (rule nth_mem) (use True in simp)
    ultimately show ?thesis by simp
  next
    case False
    then have "str_nat n = str_nat (n div 10) @ [''0123456789'' ! (n mod 10)]"
      by (subst str_nat.simps) simp
    moreover have "''0123456789'' ! (n mod 10) \<in> set ''0123456789''"
      by (rule nth_mem) simp
    ultimately show ?thesis using "1.IH"[OF False] by simp
  qed
qed

lemma str_nat_no_minus: "str_nat n \<noteq> CHR ''-'' # s"
proof
  assume "str_nat n = CHR ''-'' # s"
  then have "CHR ''-'' \<in> set (str_nat n)" by simp
  with str_nat_digits[of n] show False by auto
qed

lemma str_int_inj: "str_int a = str_int b \<Longrightarrow> a = b"
proof -
  assume e: "str_int a = str_int b"
  consider "a < 0" "b < 0" | "a < 0" "\<not> b < 0" | "\<not> a < 0" "b < 0" | "\<not> a < 0" "\<not> b < 0"
    by blast
  then show ?thesis
  proof cases
    case 1
    with e have "str_nat (nat (- a)) = str_nat (nat (- b))" by (simp add: str_int_def)
    then have "nat (- a) = nat (- b)" by (rule str_nat_inj)
    with 1 show ?thesis by simp
  next
    case 2
    with e have "str_nat (nat b) = CHR ''-'' # str_nat (nat (- a))" by (simp add: str_int_def)
    then show ?thesis using str_nat_no_minus by blast
  next
    case 3
    with e have "str_nat (nat a) = CHR ''-'' # str_nat (nat (- b))" by (simp add: str_int_def)
    then show ?thesis using str_nat_no_minus by blast
  next
    case 4
    with e have "str_nat (nat a) = str_nat (nat b)" by (simp add: str_int_def)
    then have "nat a = nat b" by (rule str_nat_inj)
    with 4 show ?thesis by simp
  qed
qed

lemma serialized_inj: "serialized a = serialized b \<Longrightarrow> a = b"
  by (cases a; cases b) (auto dest: str_int_inj)

lemma str_int_minus3: "str_int (- 3) = ''-3''"
  by (simp add: str_int_def str_nat.simps)

section \<open>The FEN validator never raises\<close>

text \<open>
  Claim C7. \<^verbatim>\<open>is_valid_fen\<close> returns a boolean for every input and every behaviour of the
  parser: it never raises. It returns false whenever building the board raises, and
  also when the legality check itself raises; when the board is built, it returns what
  the legality check returns.
\<close>

theorem is_valid_fen_never_raises:
  "(\<exists>b. is_valid_fen L fen = Inr b) \<and>
   (\<forall>e. chess_Board L fen = Inl e \<longrightarrow> is_valid_fen L fen = Inr False) \<and>
   (\<forall>board e. chess_Board L fen = Inr board \<longrightarrow> Board_is_valid L board = Inl e \<longrightarrow>
      is_valid_fen L fen = Inr False) \<and>
   (\<forall>board b. chess_Board L fen = Inr board \<longrightarrow> Board_is_valid L board = Inr b \<longrightarrow>
      is_valid_fen L fen = Inr b)"
  by (cases "is_valid_fen_body L fen") (auto simp: is_valid_fen_def is_valid_fen_body_def)

theorem is_valid_fen_never_raises_witness:
  "chess_Board mock_library (VStr ''not a fen'') = Inl (ValueError ''invalid fen'') \<and>
   is_valid_fen mock_library (VStr ''not a fen'') = Inr False \<and>
   chess_Board mock_library (VStr fen_empty) = Inr fen_empty \<and>
   Board_is_valid mock_library fen_empty = Inr False \<and>
   is_valid_fen mock_library (VStr fen_empty) = Inr False \<and>
   chess_Board mock_library (VStr fen_start) = Inr fen_start \<and>
   Board_is_valid mock_library fen_start = Inr True \<and>
   is_valid_fen mock_library (VStr fen_start) = Inr True"
proof -
  have a: "chess_Board mock_library (VStr ''not a fen'') = Inl (ValueError ''invalid fen'')"
    by (simp add: mock_library_def fen_start_def fen_e4_def fen_mate_def fen_empty_def)
  have b: "chess_Board mock_library (VStr fen_empty) = Inr fen_empty"
    by (simp add: mock_library_def)
  have c: "Board_is_valid mock_library fen_empty = Inr False"
    by (simp add: mock_library_def)
  have d: "chess_Board mock_library (VStr fen_start) = Inr fen_start"
    by (simp add: mock_library_def)
  have e: "Board_is_valid mock_library fen_start = Inr True"
    by (simp add: mock_library_def fen_start_def fen_empty_def)
  from is_valid_fen_never_raises[of mock_library "VStr ''not a fen''"] a
  have 1: "is_valid_fen mock_library (VStr ''not a fen'') = Inr False" by blast
  from is_valid_fen_never_raises[of mock_library "VStr fen_empty"] b c
  have 2: "is_valid_fen mock_library (VStr fen_empty) = Inr False" by blast
  from is_valid_fen_never_raises[of mock_library "VStr fen_start"] d e
  have 3: "is_valid_fen mock_library (VStr fen_start) = Inr True" by blast
  from a b c d e 1 2 3 show ?thesis by simp
qed

section \<open>The mapping of engine responses\<close>

text \<open>
  Claim C5. A response of type \<^verbatim>\<open>cp\<close> with value \<open>v\<close> is recorded as the score \<open>v / 100\<close>,
  so 250 gives 2.5; a response of type \<^verbatim>\<open>mate\<close> with value \<open>m\<close> is recorded as the mate
  distance \<open>m\<close>, so -3 gives the marker \<^verbatim>\<open>M-3\<close>. The written form determines the
  evaluation, sign included. When the engine answers a position, this value is what the
  loop appends.
\<close>

theorem eval_value_mapping:
  "eval_value \<lparr>ev_type = ''cp'', ev_value = v\<rparr> = serialized (Score (of_int v / 100)) \<and>
   eval_value \<lparr>ev_type = ''mate'', ev_value = m\<rparr> = serialized (MateIn m) \<and>
   eval_value \<lparr>ev_type = ''cp'', ev_value = 250\<rparr> = serialized (Score (5 / 2)) \<and>
   eval_value \<lparr>ev_type = ''mate'', ev_value = - 3\<rparr> = VStr ''M-3'' \<and>
   (\<forall>a b. serialized a = serialized b \<longrightarrow> a = b) \<and>
   (\<forall>sf1 sf2 ev. set_fen_position L (stockfish st) fen = (None, sf1) \<longrightarrow>
      get_evaluation L sf1 = (Inr ev, sf2) \<longrightarrow>
      evals (try_evaluate L index fen st) = evals st @ [eval_value ev])"
  by (auto simp: eval_value_def str_int_minus3 try_evaluate_def dest: serialized_inj)

theorem eval_value_mapping_witness:
  "set_fen_position mock_library [] (VStr fen_start) = (None, [VStr fen_start]) \<and>
   get_evaluation mock_library [VStr fen_start] =
     (Inr \<lparr>ev_type = ''cp'', ev_value = 250\<rparr>, [VStr fen_start]) \<and>
   evals (try_evaluate mock_library 0 (VStr fen_start)
            \<lparr>evals = [], invalid_count = 0, stockfish = [], trace = []\<rparr>) = [VFloat (5 / 2)] \<and>
   serialized (MateIn (- 3)) \<noteq> serialized (MateIn 3)"
proof -
  let ?st = "\<lparr>evals = [], invalid_count = 0, stockfish = [] :: val list, trace = []\<rparr>"
  have a: "set_fen_position mock_library (stockfish ?st) (VStr fen_start) = (None, [VStr fen_start])"
    by (simp add: mock_library_def fen_start_def fen_e4_def)
  have b: "get_evaluation mock_library [VStr fen_start] =
     (Inr \<lparr>ev_type = ''cp'', ev_value = 250\<rparr>, [VStr fen_start])"
    by (simp add: mock_library_def fen_start_def fen_mate_def)
  note t = eval_value_mapping[of 250 "- 3" mock_library ?st "VStr fen_start" 0]
  from t a b have "evals (try_evaluate mock_library 0 (VStr fen_start) ?st) =
      evals ?st @ [eval_value \<lparr>ev_type = ''cp'', ev_value = 250\<rparr>]" by blast
  moreover from t have "eval_value \<lparr>ev_type = ''cp'', ev_value = 250\<rparr> = serialized (Score (5 / 2))"
    by blast
  moreover have "serialized (MateIn (- 3)) \<noteq> serialized (MateIn 3)"
  proof
    assume "serialized (MateIn (- 3)) = serialized (MateIn 3)"
    with t have "MateIn (- 3) = MateIn 3" by blast
    then show False by simp
  qed
  ultimately show ?thesis using a b by simp
qed

section \<open>The loop, record by record\<close>

lemma is_valid_fen_total: "\<exists>b. is_valid_fen L fen = Inr b"
  by (cases "is_valid_fen_body L fen") (auto simp: is_valid_fen_def)

lemma iterrows_loop_append:
  "iterrows_loop L cols n i (xs @ ys) st =
     (case iterrows_loop L cols n i xs st of
        (Inl e, st') \<Rightarrow> (Inl e, st')
      | (Inr u, st') \<Rightarrow> iterrows_loop L cols n (i + length xs) ys st')"
proof (induction xs arbitrary: i st)
  case Nil
  then show ?case by simp
next
  case (Cons x xs)
  show ?case
  proof (cases "process_row L cols n i x st")
    case (Inl e)
    then show ?thesis by simp
  next
    case (Inr st1)
    have "i + 1 + length xs = i + length (x # xs)" by simp
    with Inr Cons.IH[of "i + 1" st1] show ?thesis by (simp split: prod.split sum.split)
  qed
qed

lemma try_evaluate_evals:
  "\<exists>ev. evals (try_evaluate L i fen st) = evals st @ [serialized ev]"
proof (cases "set_fen_position L (stockfish st) fen")
  case (Pair eo sf1)
  show ?thesis
  proof (cases eo)
    case None
    show ?thesis
    proof (cases "get_evaluation L sf1")
      case p: (Pair r sf2)
      show ?thesis
      proof (cases r)
        case (Inl e)
        with Pair None p have "evals (try_evaluate L i fen st) = evals st @ [serialized Unavailable]"
          by (simp add: try_evaluate_def on_exception_def)
        then show ?thesis by blast
      next
        case (Inr ev)
        with Pair None p have e: "evals (try_evaluate L i fen st) = evals st @ [eval_value ev]"
          by (simp add: try_evaluate_def)
        show ?thesis
        proof (cases "ev_type ev = ''cp''")
          case True
          then have "eval_value ev = serialized (Score (of_int (ev_value ev) / 100))"
            by (simp add: eval_value_def)
          with e show ?thesis by metis
        next
          case False
          then have "eval_value ev = serialized (MateIn (ev_value ev))"
            by (simp add: eval_value_def)
          with e show ?thesis by metis
        qed
      qed
    qed
  next
    case (Some e)
    with Pair have "evals (try_evaluate L i fen st) = evals st @ [serialized Unavailable]"
      by (simp add: try_evaluate_def on_exception_def)
    then show ?thesis by blast
  qed
qed

lemma report_progress_fields:
  "evals (report_progress n i st) = evals st"
  "invalid_count (report_progress n i st) = invalid_count st"
  "stockfish (report_progress n i st) = stockfish st"
  by (simp_all add: report_progress_def)

lemma process_row_no_column:
  "''fen'' \<notin> set cols \<Longrightarrow> process_row L cols n i r st = Inl (KeyError ''fen'')"
  unfolding process_row_def by simp

lemma process_row_valid:
  "''fen'' \<in> set cols \<Longrightarrow> is_valid_fen L (cell r ''fen'') = Inr True \<Longrightarrow>
   process_row L cols n i r st = Inr (report_progress n i (try_evaluate L i (cell r ''fen'') st))"
  unfolding process_row_def Let_def by simp

lemma process_row_invalid:
  "''fen'' \<in> set cols \<Longrightarrow> is_valid_fen L (cell r ''fen'') = Inr False \<Longrightarrow>
   process_row L cols n i r st =
     (case slice50 (cell r ''fen'') of
        Inl e \<Rightarrow> Inl e
      | Inr s \<Rightarrow>
          Inr (st\<lparr>trace := trace st @
                    [Print (''Invalid FEN at position '' @ str_nat i @ '': '' @ s @ ''...'')],
                  evals := evals st @ [VNone],
                  invalid_count := invalid_count st + 1\<rparr>))"
  unfolding process_row_def Let_def by simp

lemma process_row_evals:
  assumes "process_row L cols n i r st = Inr st'"
  shows "\<exists>ev. evals st' = evals st @ [serialized ev]"
proof -
  have c: "''fen'' \<in> set cols"
  proof (rule ccontr)
    assume "''fen'' \<notin> set cols"
    from process_row_no_column[OF this, of L n i r st] assms show False by simp
  qed
  obtain b where b: "is_valid_fen L (cell r ''fen'') = Inr b"
    using is_valid_fen_total by blast
  show ?thesis
  proof (cases b)
    case True
    with b have "is_valid_fen L (cell r ''fen'') = Inr True" by simp
    from process_row_valid[OF c this, of n i st] assms
    have "st' = report_progress n i (try_evaluate L i (cell r ''fen'') st)" by simp
    then show ?thesis using try_evaluate_evals[of L i "cell r ''fen''" st]
      by (simp add: report_progress_fields)
  next
    case False
    with b have "is_valid_fen L (cell r ''fen'') = Inr False" by simp
    note p = process_row_invalid[OF c this, of n i st]
    show ?thesis
    proof (cases "slice50 (cell r ''fen'')")
      case (Inl e)
      with p assms show ?thesis by simp
    next
      case (Inr s)
      with p assms have "st' = st\<lparr>trace := trace st @
                    [Print (''Invalid FEN at position '' @ str_nat i @ '': '' @ s @ ''...'')],
                  evals := evals st @ [VNone],
                  invalid_count := invalid_count st + 1\<rparr>" by simp
      then have "evals st' = evals st @ [serialized Unavailable]" by simp
      then show ?thesis by blast
    qed
  qed
qed

lemma iterrows_loop_evals:
  "iterrows_loop L cols n i rs st = (res, st') \<Longrightarrow>
     \<exists>new. evals st' = evals st @ new \<and> (res = Inr () \<longrightarrow> length new = length rs) \<and>
       (\<forall>v \<in> set new. \<exists>ev. v = serialized ev)"
proof (induction rs arbitrary: i st)
  case Nil
  then have "evals st' = evals st @ []" by simp
  then show ?case by fastforce
next
  case (Cons r rs)
  show ?case
  proof (cases "process_row L cols n i r st")
    case (Inl e)
    with Cons.prems have "evals st' = evals st @ []" "res \<noteq> Inr ()" by auto
    then show ?thesis by fastforce
  next
    case (Inr st1)
    with Cons.prems have "iterrows_loop L cols n (i + 1) rs st1 = (res, st')" by simp
    from Cons.IH[OF this] obtain new where n: "evals st' = evals st1 @ new"
      "res = Inr () \<longrightarrow> length new = length rs" "\<forall>v \<in> set new. \<exists>ev. v = serialized ev" by blast
    from process_row_evals[OF Inr] obtain ev where "evals st1 = evals st @ [serialized ev]" by blast
    with n have "evals st' = evals st @ (serialized ev # new)"
      "res = Inr () \<longrightarrow> length (serialized ev # new) = length (r # rs)"
      "\<forall>v \<in> set (serialized ev # new). \<exists>ev. v = serialized ev" by auto
    then show ?thesis by blast
  qed
qed

lemma mock_valid_start: "is_valid_fen mock_library (VStr fen_start) = Inr True"
  by (simp add: is_valid_fen_def is_valid_fen_body_def mock_library_def fen_start_def fen_empty_def)


lemma mock_valid_mate: "is_valid_fen mock_library (VStr fen_mate) = Inr True"
  by (simp add: is_valid_fen_def is_valid_fen_body_def mock_library_def fen_mate_def fen_empty_def)

lemma mock_invalid_garbage: "is_valid_fen mock_library (VStr ''not a fen'') = Inr False"
  by (simp add: is_valid_fen_def is_valid_fen_body_def mock_library_def
      fen_start_def fen_e4_def fen_mate_def fen_empty_def)

section \<open>The progress report\<close>

lemma printed_append: "printed (a @ b) = printed a @ printed b"
  by (simp add: printed_def)

lemma mock_step_start:
  "process_row mock_library [''fen''] n i [(''fen'', VStr fen_start)] st =
     Inr (report_progress n i
           (st\<lparr>stockfish := VStr fen_start # stockfish st,
               trace := trace st @ [SetFenPosition (VStr fen_start), GetEvaluation],
               evals := evals st @ [VFloat (5 / 2)]\<rparr>))"
proof -
  have c: "''fen'' \<in> set [''fen'']" by simp
  have f: "cell [(''fen'', VStr fen_start)] ''fen'' = VStr fen_start" by (simp add: cell_def)
  have s: "set_fen_position mock_library (stockfish st) (VStr fen_start) =
      (None, VStr fen_start # stockfish st)"
    by (simp add: mock_library_def fen_start_def fen_e4_def)
  have g: "get_evaluation mock_library (VStr fen_start # stockfish st) =
      (Inr \<lparr>ev_type = ''cp'', ev_value = 250\<rparr>, VStr fen_start # stockfish st)"
    by (simp add: mock_library_def fen_start_def fen_mate_def)
  have t: "try_evaluate mock_library i (VStr fen_start) st =
     st\<lparr>stockfish := VStr fen_start # stockfish st,
             trace := trace st @ [SetFenPosition (VStr fen_start), GetEvaluation],
             evals := evals st @ [VFloat (5 / 2)]\<rparr>"
    by (simp add: try_evaluate_def s g eval_value_def)
  from mock_valid_start f have v: "is_valid_fen mock_library (cell [(''fen'', VStr fen_start)] ''fen'') = Inr True"
    by simp
  show ?thesis
    unfolding process_row_valid[OF c v] f t by simp
qed

lemma mock_loop_start:
  "i + k < 50 \<Longrightarrow>
   iterrows_loop mock_library [''fen''] n i (replicate k [(''fen'', VStr fen_start)]) st =
     (Inr (),
      st\<lparr>stockfish := replicate k (VStr fen_start) @ stockfish st,
         trace := trace st @ concat (replicate k [SetFenPosition (VStr fen_start), GetEvaluation]),
         evals := evals st @ replicate k (VFloat (5 / 2))\<rparr>)"
proof (induction k arbitrary: i st)
  case 0
  then show ?case by simp
next
  case (Suc k)
  from Suc.prems have m: "(i + 1) mod 50 \<noteq> 0" by simp
  from Suc.prems have "Suc i + k < 50" by simp
  note ih = Suc.IH[OF this]
  show ?case
    using m by (simp add: mock_step_start report_progress_def ih replicate_app_Cons_same)
qed

lemma mock_step_garbage:
  "process_row mock_library [''fen''] n i [(''fen'', VStr ''not a fen'')] st =
     Inr (st\<lparr>trace := trace st @
               [Print (''Invalid FEN at position '' @ str_nat i @ '': not a fen...'')],
             evals := evals st @ [VNone],
             invalid_count := invalid_count st + 1\<rparr>)"
proof -
  have c: "''fen'' \<in> set [''fen'']" by simp
  have f: "cell [(''fen'', VStr ''not a fen'')] ''fen'' = VStr ''not a fen''" by (simp add: cell_def)
  from mock_invalid_garbage f
  have v: "is_valid_fen mock_library (cell [(''fen'', VStr ''not a fen'')] ''fen'') = Inr False"
    by simp
  show ?thesis
    unfolding process_row_invalid[OF c v] f by (simp add: slice50_def)
qed

lemma mock_Stockfish: "Stockfish mock_library p d = Inr []"
  by (simp add: mock_library_def)

lemma add_eval_no_filter:
  "add_eval L move_df depth None None h =
     (case Stockfish L STOCK_PATH depth of
        Inl e \<Rightarrow> (Inl e, h @ [h ! move_df], [StockfishStart STOCK_PATH depth])
      | Inr sf \<Rightarrow>
          (case iterrows_loop L (columns (h ! move_df)) (length (rows (h ! move_df))) 0
                  (rows (h ! move_df))
                  \<lparr>evals = [], invalid_count = 0, stockfish = sf,
                    trace = [StockfishStart STOCK_PATH depth]\<rparr> of
             (Inl e, st) \<Rightarrow> (Inl e, h @ [h ! move_df], trace st)
           | (Inr u, st) \<Rightarrow>
               (case assign_eval (evals st) (h ! move_df) of
                  Inl e \<Rightarrow> (Inl e, h @ [h ! move_df], trace st)
                | Inr df' \<Rightarrow>
                    (Inr (length h), h @ [df'],
                     trace st @
                       [Print (CHR 0x0A # ''Completed: '' @ str_nat (length (rows (h ! move_df))) @ '' positions''),
                        Print (''Invalid FENs: '' @ str_nat (invalid_count st))]))))"
  by (simp add: add_eval_def alloc_def date_filter_def Let_def split: sum.split prod.split)

lemma printed_calls:
  "printed (concat (replicate k [SetFenPosition v, GetEvaluation])) = []"
  by (induction k) (simp_all add: printed_def)

lemma str_nat_49: "str_nat 49 = ''49''"
  by (simp add: str_nat.simps)

lemma str_nat_50: "str_nat 50 = ''50''"
  by (simp add: str_nat.simps)

lemma str_nat_0: "str_nat 0 = ''0''"
  by (simp add: str_nat.simps)

lemma str_nat_1: "str_nat (Suc 0) = ''1''"
  by (simp add: str_nat.simps)

text \<open>
  Claim C9. The stage run on fifty records without a date range, with the engine of the
  test doubles. When the fiftieth record is invalid, the \<^verbatim>\<open>continue\<close> of line 80 leaves
  the body before the progress report of lines 98 to 100: the stage prints the line for
  the invalid position and the final summary, and no progress line. When the fiftieth
  record is valid, the progress line is printed.
\<close>

theorem progress_report_skipped_on_invalid:
  "printed (snd (snd (add_eval mock_library 0 15 None None [fifty_rows ''not a fen'']))) =
     [''Invalid FEN at position 49: not a fen...'',
      CHR 0x0A # ''Completed: 50 positions'',
      ''Invalid FENs: 1''] \<and>
   printed (snd (snd (add_eval mock_library 0 15 None None [fifty_rows fen_start]))) =
     [''Evaluated 50/50 positions... (0 invalid)'',
      CHR 0x0A # ''Completed: 50 positions'',
      ''Invalid FENs: 0'']"
proof -
  let ?st0 = "\<lparr>evals = [], invalid_count = 0, stockfish = [] :: val list,
               trace = [StockfishStart STOCK_PATH 15]\<rparr>"
  have a: "iterrows_loop mock_library [''fen''] 50 0 (replicate 49 [(''fen'', VStr fen_start)]) ?st0 =
     (Inr (),
      ?st0\<lparr>stockfish := replicate 49 (VStr fen_start) @ stockfish ?st0,
         trace := trace ?st0 @ concat (replicate 49 [SetFenPosition (VStr fen_start), GetEvaluation]),
         evals := evals ?st0 @ replicate 49 (VFloat (5 / 2))\<rparr>)"
    by (rule mock_loop_start) simp
  have 1: "printed (snd (snd (add_eval mock_library 0 15 None None [fifty_rows ''not a fen'']))) =
     [''Invalid FEN at position 49: not a fen...'',
      CHR 0x0A # ''Completed: 50 positions'',
      ''Invalid FENs: 1'']"
    by (simp add: add_eval_no_filter fifty_rows_def mock_Stockfish iterrows_loop_append a
        mock_step_garbage assign_eval_def printed_append printed_calls str_nat_49 str_nat_50
        str_nat_1)
       (simp add: printed_def)
  have 2: "printed (snd (snd (add_eval mock_library 0 15 None None [fifty_rows fen_start]))) =
     [''Evaluated 50/50 positions... (0 invalid)'',
      CHR 0x0A # ''Completed: 50 positions'',
      ''Invalid FENs: 0'']"
    by (simp add: add_eval_no_filter fifty_rows_def mock_Stockfish iterrows_loop_append a
        mock_step_start report_progress_def assign_eval_def printed_append printed_calls
        str_nat_50 str_nat_0)
       (simp add: printed_def)
  from 1 2 show ?thesis by simp
qed

section \<open>The date filter, proved\<close>

lemma cell_update_same: "cell (AList.update c v r) c = v"
  by (simp add: cell_def update_conv')

lemma cell_update_other: "c \<noteq> c' \<Longrightarrow> cell (AList.update c v r) c' = cell r c'"
  by (simp add: cell_def update_conv')

lemma cell_delete_other: "c \<noteq> c' \<Longrightarrow> cell (AList.delete c r) c' = cell r c'"
  by (simp add: cell_def delete_conv')

lemma zip_map_update:
  "map (\<lambda>(r, v). AList.update c v r) (zip rs (map f rs)) = map (\<lambda>r. AList.update c (f r) r) rs"
  by (induction rs) simp_all

lemma map2_same:
  "map (\<lambda>(x, y). g x y) (zip (map a rs) (map b rs)) = map (\<lambda>r. g (a r) (b r)) rs"
  by (induction rs) simp_all

lemma select_by_map: "map fst (filter snd (zip rs (map P rs))) = filter P rs"
  by (induction rs) simp_all

lemma to_datetime_cells_parsed:
  "to_datetime_cells L vs = Inr ds \<Longrightarrow>
   ds = map (\<lambda>v. case pd_to_datetime L v of Inr (Some t) \<Rightarrow> VTimestamp t | _ \<Rightarrow> VNaT) vs"
proof (induction vs arbitrary: ds)
  case Nil
  then show ?case by simp
next
  case (Cons v vs)
  from Cons.prems obtain t where t: "pd_to_datetime L v = Inr t"
    by (cases "pd_to_datetime L v") simp_all
  with Cons.prems obtain ts where ts: "to_datetime_cells L vs = Inr ts"
    by (cases "to_datetime_cells L vs") simp_all
  from Cons.prems t ts have "ds = (case t of None \<Rightarrow> VNaT | Some t' \<Rightarrow> VTimestamp t') # ts" by simp
  with Cons.IH[OF ts] t show ?case by (cases t) simp_all
qed

lemma to_datetime_cells_ok:
  "list_all (\<lambda>v. \<not> isl (pd_to_datetime L v)) vs \<Longrightarrow> \<exists>ds. to_datetime_cells L vs = Inr ds"
proof (induction vs)
  case Nil
  then show ?case by simp
next
  case (Cons v vs)
  then obtain t ds where "pd_to_datetime L v = Inr t" "to_datetime_cells L vs = Inr ds"
    by (cases "pd_to_datetime L v") auto
  then show ?case by simp
qed

lemma to_datetime_cells_raises:
  "v \<in> set vs \<Longrightarrow> isl (pd_to_datetime L v) \<Longrightarrow>
   \<exists>e w. w \<in> set vs \<and> pd_to_datetime L w = Inl e \<and> to_datetime_cells L vs = Inl e"
proof (induction vs)
  case Nil
  then show ?case by simp
next
  case (Cons w ws)
  show ?case
  proof (cases "pd_to_datetime L w")
    case (Inl e)
    then have "to_datetime_cells L (w # ws) = Inl e" by simp
    with Inl show ?thesis by (intro exI[of _ e] exI[of _ w]) simp
  next
    case (Inr t)
    with Cons.prems have "v \<in> set ws" by auto
    from Cons.IH[OF this Cons.prems(2)] obtain e u where
      "u \<in> set ws" "pd_to_datetime L u = Inl e" "to_datetime_cells L ws = Inl e" by blast
    with Inr show ?thesis by (intro exI[of _ e] exI[of _ u]) simp
  qed
qed

lemma assign_dates:
  assumes "to_datetime_cells L (map (\<lambda>r. cell r ''date'') (rows f)) = Inr dates"
  shows "assign_column ''year_month''
           (map (\<lambda>r. year_month_of (cell r ''date'')) (rows (assign_column ''date'' dates f)))
           (assign_column ''date'' dates f) = with_year_month L f"
proof -
  from to_datetime_cells_parsed[OF assms]
  have d: "dates = map (parsed_date L) (rows f)" by (simp add: parsed_date_def comp_def)
  show ?thesis
    unfolding with_year_month_def
    by (simp add: assign_column_def d zip_map_update comp_def cell_update_same map2_same)
qed

lemma filter_start_eq:
  "filter_start L start_date df h =
     (case start_date of
        None \<Rightarrow> (Inr df, h)
      | Some s \<Rightarrow>
          (case pd_Period L s of
             Inl e \<Rightarrow> (Inl e, h)
           | Inr p \<Rightarrow>
               (Inr (length h),
                h @ [\<lparr>columns = columns (h ! df),
                      rows = filter (\<lambda>r. period_ge (cell r ''year_month'') p) (rows (h ! df))\<rparr>])))"
  by (simp add: filter_start_def alloc_def select_rows_def select_by_map
      split: option.split sum.split)

lemma filter_end_eq:
  "filter_end L end_date df h =
     (case end_date of
        None \<Rightarrow> (Inr df, h)
      | Some s \<Rightarrow>
          (case pd_Period L s of
             Inl e \<Rightarrow> (Inl e, h)
           | Inr p \<Rightarrow>
               (Inr (length h),
                h @ [\<lparr>columns = columns (h ! df),
                      rows = filter (\<lambda>r. period_le (cell r ''year_month'') p) (rows (h ! df))\<rparr>])))"
  by (simp add: filter_end_def alloc_def select_rows_def select_by_map
      split: option.split sum.split)

lemma filter_start_shape:
  assumes "filter_start L start_date df h = (res, h')"
  shows "(\<exists>fs. h' = h @ fs) \<and> (\<forall>out. res = Inr out \<longrightarrow> out = df \<or> out = length h)"
proof (cases start_date)
  case None
  with assms show ?thesis by (auto simp: filter_start_eq)
next
  case (Some s)
  with assms show ?thesis by (cases "pd_Period L s") (auto simp: filter_start_eq)
qed

lemma filter_end_shape:
  assumes "filter_end L end_date df h = (res, h')"
  shows "(\<exists>fs. h' = h @ fs) \<and> (\<forall>out. res = Inr out \<longrightarrow> out = df \<or> out = length h)"
proof (cases end_date)
  case None
  with assms show ?thesis by (auto simp: filter_end_eq)
next
  case (Some s)
  with assms show ?thesis by (cases "pd_Period L s") (auto simp: filter_end_eq)
qed

lemma filter_start_run:
  assumes "bound_parses L start_date" and "df < length h"
  shows "\<exists>out fs. filter_start L start_date df h = (Inr out, h @ fs) \<and> out < length (h @ fs) \<and>
           columns ((h @ fs) ! out) = columns (h ! df) \<and>
           rows ((h @ fs) ! out) =
             filter (\<lambda>r. kept_lower L start_date (cell r ''year_month'')) (rows (h ! df))"
proof (cases start_date)
  case None
  have "filter_start L start_date df h = (Inr df, h @ [])"
    by (simp add: filter_start_eq None)
  moreover have "df < length (h @ [])" using assms by simp
  moreover have "columns ((h @ []) ! df) = columns (h ! df)" by simp
  moreover have "rows ((h @ []) ! df) =
      filter (\<lambda>r. kept_lower L start_date (cell r ''year_month'')) (rows (h ! df))"
    by (simp add: None kept_lower_def)
  ultimately show ?thesis by blast
next
  case (Some s)
  with assms obtain p where p: "pd_Period L s = Inr p"
    by (cases "pd_Period L s") (simp_all add: bound_parses_def)
  let ?f = "\<lparr>columns = columns (h ! df),
             rows = filter (\<lambda>r. period_ge (cell r ''year_month'') p) (rows (h ! df))\<rparr>"
  have "filter_start L start_date df h = (Inr (length h), h @ [?f])"
    by (simp add: filter_start_eq Some p)
  moreover have "length h < length (h @ [?f])" by simp
  moreover have "columns ((h @ [?f]) ! length h) = columns (h ! df)" by simp
  moreover have "rows ((h @ [?f]) ! length h) =
      filter (\<lambda>r. kept_lower L start_date (cell r ''year_month'')) (rows (h ! df))"
    by (simp add: Some p kept_lower_def)
  ultimately show ?thesis by blast
qed

lemma filter_end_run:
  assumes "bound_parses L end_date" and "df < length h"
  shows "\<exists>out fs. filter_end L end_date df h = (Inr out, h @ fs) \<and> out < length (h @ fs) \<and>
           columns ((h @ fs) ! out) = columns (h ! df) \<and>
           rows ((h @ fs) ! out) =
             filter (\<lambda>r. kept_upper L end_date (cell r ''year_month'')) (rows (h ! df))"
proof (cases end_date)
  case None
  have "filter_end L end_date df h = (Inr df, h @ [])"
    by (simp add: filter_end_eq None)
  moreover have "df < length (h @ [])" using assms by simp
  moreover have "columns ((h @ []) ! df) = columns (h ! df)" by simp
  moreover have "rows ((h @ []) ! df) =
      filter (\<lambda>r. kept_upper L end_date (cell r ''year_month'')) (rows (h ! df))"
    by (simp add: None kept_upper_def)
  ultimately show ?thesis by blast
next
  case (Some s)
  with assms obtain p where p: "pd_Period L s = Inr p"
    by (cases "pd_Period L s") (simp_all add: bound_parses_def)
  let ?f = "\<lparr>columns = columns (h ! df),
             rows = filter (\<lambda>r. period_le (cell r ''year_month'') p) (rows (h ! df))\<rparr>"
  have "filter_end L end_date df h = (Inr (length h), h @ [?f])"
    by (simp add: filter_end_eq Some p)
  moreover have "length h < length (h @ [?f])" by simp
  moreover have "columns ((h @ [?f]) ! length h) = columns (h ! df)" by simp
  moreover have "rows ((h @ [?f]) ! length h) =
      filter (\<lambda>r. kept_upper L end_date (cell r ''year_month'')) (rows (h ! df))"
    by (simp add: Some p kept_upper_def)
  ultimately show ?thesis by blast
qed

lemma date_filter_eq:
  assumes given: "start_date \<noteq> None \<or> end_date \<noteq> None"
    and col: "''date'' \<in> set (columns (h ! df))"
    and d: "to_datetime_cells L (map (\<lambda>r. cell r ''date'') (rows (h ! df))) = Inr dates"
    and lt: "df < length h"
  shows "date_filter L start_date end_date df h =
     (case filter_start L start_date df (h[df := with_year_month L (h ! df)]) of
        (Inl e, h3) \<Rightarrow> (Inl e, h3)
      | (Inr df3, h3) \<Rightarrow>
          (case filter_end L end_date df3 h3 of
             (Inl e, h4) \<Rightarrow> (Inl e, h4)
           | (Inr df4, h4) \<Rightarrow>
               (Inr (length h4), h4 @ [drop_column ''year_month'' (h4 ! df4)])))"
proof -
  let ?f1 = "assign_column ''date'' dates (h ! df)"
  have 1: "h[df := ?f1] ! df = ?f1" using lt by simp
  have 2: "assign_column ''year_month''
             (map (\<lambda>r. year_month_of (cell r ''date'')) (rows ?f1)) ?f1 =
           with_year_month L (h ! df)"
    by (rule assign_dates[OF d])
  show ?thesis
    unfolding date_filter_def using given col
    by (simp add: d Let_def 1 2 alloc_def cong: sum.case_cong)
qed

lemma removeAll_add_column: "removeAll c (add_column c cs) = removeAll c cs"
  by (simp add: add_column_def)

lemma add_column_present: "c \<in> set cs \<Longrightarrow> add_column c cs = cs"
  by (simp add: add_column_def)

lemma year_month_cell:
  "cell (AList.update ''year_month'' (year_month_of (parsed_date L r))
           (AList.update ''date'' (parsed_date L r) r)) ''year_month'' =
     year_month_of (parsed_date L r)"
  by (rule cell_update_same)

lemma kept_fun:
  "kept L start_date end_date =
     (\<lambda>r. kept_lower L start_date (year_month_of (parsed_date L r)) \<and>
          kept_upper L end_date (year_month_of (parsed_date L r)))"
  by (rule ext) (simp add: kept_def)

lemma filtered_row_fun:
  "filtered_row L = (\<lambda>r. AList.delete ''year_month'' (AList.update ''date'' (parsed_date L r) r))"
  by (rule ext) (simp add: filtered_row_def)

lemma drop_filtered:
  assumes "''date'' \<in> set (columns f)"
    and "columns g = columns (with_year_month L f)"
    and "rows g = filter (\<lambda>r. kept_upper L end_date (cell r ''year_month''))
                   (filter (\<lambda>r. kept_lower L start_date (cell r ''year_month''))
                      (rows (with_year_month L f)))"
  shows "drop_column ''year_month'' g = filtered_frame L start_date end_date f"
proof -
  have c: "columns (drop_column ''year_month'' g) = removeAll ''year_month'' (columns f)"
    using assms(1,2)
    by (simp add: drop_column_def with_year_month_def removeAll_add_column add_column_present)
  have r: "rows (drop_column ''year_month'' g) =
      map (filtered_row L) (filter (kept L start_date end_date) (rows f))"
    unfolding drop_column_def
    by (simp add: assms(3) with_year_month_def filter_map comp_def year_month_cell kept_fun
        filtered_row_fun delete_update_same conj_commute)
  from c r show ?thesis by (simp add: filtered_frame_def)
qed

lemma date_filter_run:
  assumes given: "start_date \<noteq> None \<or> end_date \<noteq> None"
    and col: "''date'' \<in> set (columns (h ! df))"
    and parse: "list_all (\<lambda>r. \<not> isl (pd_to_datetime L (cell r ''date''))) (rows (h ! df))"
    and lo: "bound_parses L start_date"
    and hi: "bound_parses L end_date"
    and lt: "df < length h"
  shows "\<exists>out fs. date_filter L start_date end_date df h =
             (Inr out, h[df := with_year_month L (h ! df)] @ fs) \<and>
           length h \<le> out \<and> out < length (h[df := with_year_month L (h ! df)] @ fs) \<and>
           (h[df := with_year_month L (h ! df)] @ fs) ! out =
             filtered_frame L start_date end_date (h ! df)"
proof -
  let ?h2 = "h[df := with_year_month L (h ! df)]"
  from parse have "list_all (\<lambda>v. \<not> isl (pd_to_datetime L v)) (map (\<lambda>r. cell r ''date'') (rows (h ! df)))"
    by (simp add: list_all_iff)
  from to_datetime_cells_ok[OF this] obtain dates where
    d: "to_datetime_cells L (map (\<lambda>r. cell r ''date'') (rows (h ! df))) = Inr dates" by blast
  note eq = date_filter_eq[OF given col d lt]
  have lt2: "df < length ?h2" using lt by simp
  have w: "?h2 ! df = with_year_month L (h ! df)" using lt by simp
  from filter_start_run[OF lo lt2] obtain df3 fs3 where
    s: "filter_start L start_date df ?h2 = (Inr df3, ?h2 @ fs3)"
    and s1: "df3 < length (?h2 @ fs3)"
    and s2: "columns ((?h2 @ fs3) ! df3) = columns (?h2 ! df)"
    and s3: "rows ((?h2 @ fs3) ! df3) =
      filter (\<lambda>r. kept_lower L start_date (cell r ''year_month'')) (rows (?h2 ! df))" by blast
  from filter_end_run[OF hi s1] obtain df4 fs4 where
    e: "filter_end L end_date df3 (?h2 @ fs3) = (Inr df4, (?h2 @ fs3) @ fs4)"
    and e1: "df4 < length ((?h2 @ fs3) @ fs4)"
    and e2: "columns (((?h2 @ fs3) @ fs4) ! df4) = columns ((?h2 @ fs3) ! df3)"
    and e3: "rows (((?h2 @ fs3) @ fs4) ! df4) =
      filter (\<lambda>r. kept_upper L end_date (cell r ''year_month'')) (rows ((?h2 @ fs3) ! df3))" by blast
  let ?h4 = "(?h2 @ fs3) @ fs4"
  let ?g = "?h4 ! df4"
  have g: "drop_column ''year_month'' ?g = filtered_frame L start_date end_date (h ! df)"
    by (rule drop_filtered[OF col]) (simp_all only: e2 s2 w e3 s3)
  have r: "date_filter L start_date end_date df h =
      (Inr (length ?h4), ?h2 @ (fs3 @ fs4 @ [drop_column ''year_month'' ?g]))"
    by (simp add: eq s e)
  have "length h \<le> length ?h4" by simp
  moreover have "length ?h4 < length (?h2 @ (fs3 @ fs4 @ [drop_column ''year_month'' ?g]))" by simp
  moreover have "(?h2 @ (fs3 @ fs4 @ [drop_column ''year_month'' ?g])) ! length ?h4 =
      filtered_frame L start_date end_date (h ! df)"
    using g by (simp add: nth_append)
  ultimately show ?thesis using r by blast
qed

lemma date_filter_none: "date_filter L None None df h = (Inr df, h)"
  by (simp add: date_filter_def)

lemma date_filter_no_column:
  "start_date \<noteq> None \<or> end_date \<noteq> None \<Longrightarrow> ''date'' \<notin> set (columns (h ! df)) \<Longrightarrow>
   date_filter L start_date end_date df h =
     (Inl (ValueError ''DataFrame must have 'date' column for date filtering''), h)"
  by (simp add: date_filter_def)

lemma date_filter_bad_date:
  "start_date \<noteq> None \<or> end_date \<noteq> None \<Longrightarrow> ''date'' \<in> set (columns (h ! df)) \<Longrightarrow>
   to_datetime_cells L (map (\<lambda>r. cell r ''date'') (rows (h ! df))) = Inl e \<Longrightarrow>
   date_filter L start_date end_date df h = (Inl e, h)"
  by (simp add: date_filter_def)

lemma date_filter_heap:
  assumes r: "date_filter L start_date end_date df h = (res, h')" and lt: "df < length h"
  shows "length h \<le> length h' \<and> (\<forall>a < length h. a \<noteq> df \<longrightarrow> h' ! a = h ! a) \<and>
         (\<forall>out. res = Inr out \<longrightarrow> out = df \<or> length h \<le> out)"
proof (cases "start_date \<noteq> None \<or> end_date \<noteq> None")
  case False
  then have "start_date = None" "end_date = None" by simp_all
  with r show ?thesis by (auto simp: date_filter_none)
next
  case given: True
  show ?thesis
  proof (cases "''date'' \<in> set (columns (h ! df))")
    case False
    from date_filter_no_column[OF given False, of L] r show ?thesis by simp
  next
    case col: True
    show ?thesis
    proof (cases "to_datetime_cells L (map (\<lambda>r. cell r ''date'') (rows (h ! df)))")
      case (Inl e)
      from date_filter_bad_date[OF given col Inl] r show ?thesis by simp
    next
      case (Inr dates)
      let ?h2 = "h[df := with_year_month L (h ! df)]"
      note eq = date_filter_eq[OF given col Inr lt]
      obtain r3 h3 where s: "filter_start L start_date df ?h2 = (r3, h3)" by (cases "filter_start L start_date df ?h2")
      from filter_start_shape[OF s] obtain fs3 where h3: "h3 = ?h2 @ fs3" by blast
      have base: "length h \<le> length (?h2 @ fs) \<and>
                  (\<forall>a < length h. a \<noteq> df \<longrightarrow> (?h2 @ fs) ! a = h ! a)" for fs
        by (simp add: nth_append)
      show ?thesis
      proof (cases r3)
        case (Inl e)
        with eq s r have "res = Inl e" "h' = h3" by simp_all
        with h3 base[of fs3] show ?thesis by simp
      next
        case (Inr df3)
        obtain r4 h4 where e: "filter_end L end_date df3 h3 = (r4, h4)" by (cases "filter_end L end_date df3 h3")
        from filter_end_shape[OF e] obtain fs4 where h4: "h4 = h3 @ fs4" by blast
        show ?thesis
        proof (cases r4)
          case (Inl e')
          with eq s Inr e r have "res = Inl e'" "h' = h4" by simp_all
          with h3 h4 base[of "fs3 @ fs4"] show ?thesis by simp
        next
          case r4: (Inr df4)
          with eq s Inr e r have "res = Inr (length h4)"
            "h' = h4 @ [drop_column ''year_month'' (h4 ! df4)]" by simp_all
          with h3 h4 base[of "fs3 @ fs4 @ [drop_column ''year_month'' (h4 ! df4)]"]
          show ?thesis by simp
        qed
      qed
    qed
  qed
qed

lemma ordinal_le: "valid_month (snd a) \<Longrightarrow> valid_month (snd b) \<Longrightarrow> (ordinal a \<le> ordinal b) = ym_le a b"
  by (auto simp: ordinal_def ym_le_def valid_month_def)

text \<open>
  Claim C4. When a date range is supplied and the frame has no \<^verbatim>\<open>date\<close> column, the
  stage raises the error of line 51 (the specification's \<open>MissingColumn\<close>) and has no
  effect on the world: nothing is printed, the engine is not started, no position is
  sent to it. Only the copy of the frame was made.
\<close>

theorem missing_date_column_fails_fast:
  assumes "start_date \<noteq> None \<or> end_date \<noteq> None"
    and "''date'' \<notin> set (columns (h ! move_df))"
  shows "add_eval L move_df depth start_date end_date h =
     (Inl (ValueError ''DataFrame must have 'date' column for date filtering''),
      h @ [h ! move_df], [])"
proof -
  have "''date'' \<notin> set (columns ((h @ [h ! move_df]) ! length h))" using assms(2) by simp
  from date_filter_no_column[OF assms(1) this, of L] show ?thesis
    by (simp add: add_eval_def alloc_def)
qed

theorem missing_date_column_fails_fast_witness:
  "add_eval mock_library 0 15 (Some ''2024-01'') None [mock_frame_no_date] =
     (Inl (ValueError ''DataFrame must have 'date' column for date filtering''),
      [mock_frame_no_date, mock_frame_no_date], [])"
proof -
  have g: "Some ''2024-01'' \<noteq> None \<or> (None :: string option) \<noteq> None" by simp
  have c: "''date'' \<notin> set (columns ([mock_frame_no_date] ! 0))"
    by (simp add: mock_frame_no_date_def)
  from missing_date_column_fails_fast[OF g c, of mock_library 15] show ?thesis by simp
qed

text \<open>
  Claim C10. When a date range is supplied, the \<^verbatim>\<open>date\<close> column is present and
  \<^verbatim>\<open>pd.to_datetime\<close> raises on the date of some record, the stage raises that exception
  (for the first such record) and returns no frame; nothing is printed, the engine is
  not started and no position is sent to it.
\<close>

theorem unparseable_date_fails_fast:
  assumes given: "start_date \<noteq> None \<or> end_date \<noteq> None"
    and col: "''date'' \<in> set (columns (h ! move_df))"
    and row: "r \<in> set (rows (h ! move_df))"
    and bad: "isl (pd_to_datetime L (cell r ''date''))"
  shows "\<exists>e r'. r' \<in> set (rows (h ! move_df)) \<and> pd_to_datetime L (cell r' ''date'') = Inl e \<and>
           add_eval L move_df depth start_date end_date h = (Inl e, h @ [h ! move_df], [])"
proof -
  let ?vs = "map (\<lambda>r. cell r ''date'') (rows (h ! move_df))"
  from row have "cell r ''date'' \<in> set ?vs" by simp
  from to_datetime_cells_raises[OF this bad] obtain e w where
    w: "w \<in> set ?vs" "pd_to_datetime L w = Inl e" and f: "to_datetime_cells L ?vs = Inl e" by blast
  from w(1) obtain r' where r': "r' \<in> set (rows (h ! move_df))" "w = cell r' ''date''" by auto
  have c: "''date'' \<in> set (columns ((h @ [h ! move_df]) ! length h))" using col by simp
  have "to_datetime_cells L (map (\<lambda>r. cell r ''date'') (rows ((h @ [h ! move_df]) ! length h))) = Inl e"
    using f by simp
  from date_filter_bad_date[OF given c this]
  have "add_eval L move_df depth start_date end_date h = (Inl e, h @ [h ! move_df], [])"
    by (simp add: add_eval_def alloc_def)
  with r' w(2) show ?thesis by blast
qed

theorem unparseable_date_fails_fast_witness:
  "isl (pd_to_datetime mock_library (VStr ''yesterday'')) \<and>
   (\<exists>e. add_eval mock_library 0 15 (Some ''2024-01'') None [mock_frame_bad_date] =
      (Inl e, [mock_frame_bad_date, mock_frame_bad_date], []))"
proof -
  let ?r = "[(''fen'', VStr fen_e4), (''date'', VStr ''yesterday'')]"
  have g: "Some ''2024-01'' \<noteq> None \<or> (None :: string option) \<noteq> None" by simp
  have c: "''date'' \<in> set (columns ([mock_frame_bad_date] ! 0))"
    by (simp add: mock_frame_bad_date_def)
  have r: "?r \<in> set (rows ([mock_frame_bad_date] ! 0))"
    by (simp add: mock_frame_bad_date_def)
  have b: "isl (pd_to_datetime mock_library (VStr ''yesterday''))"
    by (simp add: mock_library_def mock_dates_def)
  then have b': "isl (pd_to_datetime mock_library (cell ?r ''date''))"
    by (simp add: cell_def)
  from unparseable_date_fails_fast[OF g c r b', of 15] b show ?thesis by auto
qed

lemma bound_is_parses: "bound_is L d b \<Longrightarrow> bound_parses L d"
  by (cases d; cases b) (simp_all add: bound_is_def bound_parses_def)

lemma kept_lower_iff:
  assumes "bound_is L start_date lo" and "valid_month (ts_month ts)"
  shows "kept_lower L start_date (VPeriod (to_period_M ts)) =
         (case lo of None \<Rightarrow> True | Some a \<Rightarrow> ym_le a (ts_year ts, ts_month ts))"
proof (cases start_date)
  case None
  with assms show ?thesis by (simp add: bound_is_def kept_lower_def)
next
  case (Some s)
  with assms obtain p where p: "lo = Some p" "pd_Period L s = Inr (Some p)" "valid_month (snd p)"
    by (cases lo) (simp_all add: bound_is_def)
  from ordinal_le[of p "(ts_year ts, ts_month ts)"] p(3) assms(2)
  have "(ordinal p \<le> ordinal (ts_year ts, ts_month ts)) = ym_le p (ts_year ts, ts_month ts)" by simp
  with Some p show ?thesis by (simp add: kept_lower_def period_ge_def to_period_M_def)
qed

lemma kept_upper_iff:
  assumes "bound_is L end_date hi" and "valid_month (ts_month ts)"
  shows "kept_upper L end_date (VPeriod (to_period_M ts)) =
         (case hi of None \<Rightarrow> True | Some b \<Rightarrow> ym_le (ts_year ts, ts_month ts) b)"
proof (cases end_date)
  case None
  with assms show ?thesis by (simp add: bound_is_def kept_upper_def)
next
  case (Some s)
  with assms obtain p where p: "hi = Some p" "pd_Period L s = Inr (Some p)" "valid_month (snd p)"
    by (cases hi) (simp_all add: bound_is_def)
  from ordinal_le[of "(ts_year ts, ts_month ts)" p] p(3) assms(2)
  have "(ordinal (ts_year ts, ts_month ts) \<le> ordinal p) = ym_le (ts_year ts, ts_month ts) p" by simp
  with Some p show ?thesis by (simp add: kept_upper_def period_le_def to_period_M_def)
qed

lemma kept_NaT:
  assumes "start_date \<noteq> None \<or> end_date \<noteq> None"
  shows "\<not> (kept_lower L start_date VNaT \<and> kept_upper L end_date VNaT)"
proof (cases start_date)
  case None
  with assms obtain s where "end_date = Some s" by auto
  then show ?thesis by (simp add: kept_upper_def period_le_def split: sum.split)
next
  case (Some s)
  then show ?thesis by (simp add: kept_lower_def period_ge_def split: sum.split)
qed

lemma kept_retained:
  assumes given: "start_date \<noteq> None \<or> end_date \<noteq> None"
    and lo: "bound_is L start_date lo" and hi: "bound_is L end_date hi"
    and m: "month_of_date_valid L r"
  shows "kept L start_date end_date r = retained L lo hi r"
proof (cases "pd_to_datetime L (cell r ''date'')")
  case (Inl e)
  then have "parsed_date L r = VNaT" by (simp add: parsed_date_def)
  with kept_NaT[OF given, of L] Inl show ?thesis
    by (simp add: kept_def retained_def year_month_of_def)
next
  case (Inr t)
  show ?thesis
  proof (cases t)
    case None
    with Inr have "parsed_date L r = VNaT" by (simp add: parsed_date_def)
    with kept_NaT[OF given, of L] Inr None show ?thesis
      by (simp add: kept_def retained_def year_month_of_def)
  next
    case (Some ts)
    with Inr m have v: "valid_month (ts_month ts)" by (simp add: month_of_date_valid_def)
    from Inr Some have "year_month_of (parsed_date L r) = VPeriod (to_period_M ts)"
      by (simp add: parsed_date_def year_month_of_def)
    with Inr Some show ?thesis
      by (simp add: kept_def retained_def within_range_def
          kept_lower_iff[OF lo v] kept_upper_iff[OF hi v])
  qed
qed

lemma within_range_bounds:
  "within_range (Some a) None a"
  "within_range None (Some b) b"
  "ym_le a b \<Longrightarrow> within_range (Some a) (Some b) a \<and> within_range (Some a) (Some b) b"
  "valid_month (snd a) \<Longrightarrow> \<not> within_range (Some a) hi (month_before a)"
  "valid_month (snd b) \<Longrightarrow> \<not> within_range lo (Some b) (month_after b)"
  by (auto simp: within_range_def ym_le_def month_before_def month_after_def valid_month_def)

lemma mock_parse: "list_all (\<lambda>r. \<not> isl (pd_to_datetime mock_library (cell r ''date''))) (rows mock_frame)"
  by code_simp

lemma mock_months: "list_all (month_of_date_valid mock_library) (rows mock_frame)"
  by code_simp

lemma mock_lo: "bound_is mock_library (Some ''2024-01'') (Some (2024, 1))"
  by code_simp

lemma mock_hi: "bound_is mock_library (Some ''2024-03'') (Some (2024, 3))"
  by code_simp

lemma mock_retained_plies:
  "map (\<lambda>r. cell r ''ply'')
     (map (filtered_row mock_library)
        (filter (retained mock_library (Some (2024, 1)) (Some (2024, 3))) (rows mock_frame))) =
   [VInt 2, VInt 3]"
  by code_simp

text \<open>
  Claim C6. When a date range is supplied and the dates and the bounds are parsed (to
  months of the calendar), the filter returns the records whose date has a year and a
  month within the range, in their order; the day of the month plays no part. A bound
  is itself within the range, the month before the start and the month after the end
  are not, and an omitted bound leaves its side open.
\<close>

theorem date_filter_retains_range:
  assumes given: "start_date \<noteq> None \<or> end_date \<noteq> None"
    and col: "''date'' \<in> set (columns (h ! df))"
    and parse: "list_all (\<lambda>r. \<not> isl (pd_to_datetime L (cell r ''date''))) (rows (h ! df))"
    and months: "list_all (month_of_date_valid L) (rows (h ! df))"
    and lo: "bound_is L start_date lo"
    and hi: "bound_is L end_date hi"
    and lt: "df < length h"
  shows "\<exists>out h'. date_filter L start_date end_date df h = (Inr out, h') \<and>
           rows (h' ! out) = map (filtered_row L) (filter (retained L lo hi) (rows (h ! df))) \<and>
           (\<forall>r ts. pd_to_datetime L (cell r ''date'') = Inr (Some ts) \<longrightarrow>
              retained L lo hi r = within_range lo hi (ts_year ts, ts_month ts)) \<and>
           (\<forall>a. lo = Some a \<longrightarrow> hi = None \<longrightarrow> within_range lo hi a) \<and>
           (\<forall>b. lo = None \<longrightarrow> hi = Some b \<longrightarrow> within_range lo hi b) \<and>
           (\<forall>a b. lo = Some a \<longrightarrow> hi = Some b \<longrightarrow> ym_le a b \<longrightarrow>
              within_range lo hi a \<and> within_range lo hi b) \<and>
           (\<forall>a. lo = Some a \<longrightarrow> \<not> within_range lo hi (month_before a)) \<and>
           (\<forall>b. hi = Some b \<longrightarrow> \<not> within_range lo hi (month_after b))"
proof -
  from date_filter_run[OF given col parse bound_is_parses[OF lo] bound_is_parses[OF hi] lt]
  obtain out fs where r: "date_filter L start_date end_date df h =
             (Inr out, h[df := with_year_month L (h ! df)] @ fs)"
    and f: "(h[df := with_year_month L (h ! df)] @ fs) ! out =
             filtered_frame L start_date end_date (h ! df)" by blast
  have "filter (kept L start_date end_date) (rows (h ! df)) = filter (retained L lo hi) (rows (h ! df))"
  proof (rule filter_cong[OF refl])
    fix r assume "r \<in> set (rows (h ! df))"
    with months have "month_of_date_valid L r" by (simp add: list_all_iff)
    from kept_retained[OF given lo hi this] show "kept L start_date end_date r = retained L lo hi r" .
  qed
  with f have rows: "rows ((h[df := with_year_month L (h ! df)] @ fs) ! out) =
      map (filtered_row L) (filter (retained L lo hi) (rows (h ! df)))"
    by (simp add: filtered_frame_def)
  have va: "valid_month (snd a)" if "lo = Some a" for a
    using lo that by (cases start_date) (simp_all add: bound_is_def)
  have vb: "valid_month (snd b)" if "hi = Some b" for b
    using hi that by (cases end_date) (simp_all add: bound_is_def)
  show ?thesis
  proof (intro exI conjI allI impI)
    show "date_filter L start_date end_date df h =
             (Inr out, h[df := with_year_month L (h ! df)] @ fs)" by (rule r)
    show "rows ((h[df := with_year_month L (h ! df)] @ fs) ! out) =
      map (filtered_row L) (filter (retained L lo hi) (rows (h ! df)))" by (rule rows)
    show "retained L lo hi r = within_range lo hi (ts_year ts, ts_month ts)"
      if "pd_to_datetime L (cell r ''date'') = Inr (Some ts)" for r ts
      using that by (simp add: retained_def)
    show "within_range lo hi a" if "lo = Some a" "hi = None" for a
      using that by (simp add: within_range_bounds)
    show "within_range lo hi b" if "lo = None" "hi = Some b" for b
      using that by (simp add: within_range_bounds)
    show "within_range lo hi a" if "lo = Some a" "hi = Some b" "ym_le a b" for a b
      using that within_range_bounds(3)[of a b] by simp
    show "within_range lo hi b" if "lo = Some a" "hi = Some b" "ym_le a b" for a b
      using that within_range_bounds(3)[of a b] by simp
    show "\<not> within_range lo hi (month_before a)" if "lo = Some a" for a
      using that within_range_bounds(4)[OF va[OF that]] by simp
    show "\<not> within_range lo hi (month_after b)" if "hi = Some b" for b
      using that within_range_bounds(5)[OF vb[OF that]] by simp
  qed
qed

theorem date_filter_retains_range_witness:
  "map (\<lambda>r. cell r ''date'') (rows mock_frame) =
     [VStr ''2023.12.31'', VStr ''2024.01.15'', VStr ''2024.03.31'', VStr ''2024.04.01''] \<and>
   (\<exists>out h'. date_filter mock_library (Some ''2024-01'') (Some ''2024-03'') 0 [mock_frame] =
        (Inr out, h') \<and>
      map (\<lambda>r. cell r ''ply'') (rows (h' ! out)) = [VInt 2, VInt 3])"
proof -
  have g: "Some ''2024-01'' \<noteq> None \<or> Some ''2024-03'' \<noteq> None" by simp
  have c: "''date'' \<in> set (columns ([mock_frame] ! 0))" by (simp add: mock_frame_def)
  have p: "list_all (\<lambda>r. \<not> isl (pd_to_datetime mock_library (cell r ''date''))) (rows ([mock_frame] ! 0))"
    using mock_parse by simp
  have m: "list_all (month_of_date_valid mock_library) (rows ([mock_frame] ! 0))"
    using mock_months by simp
  have lt: "0 < length [mock_frame]" by simp
  from date_filter_retains_range[OF g c p m mock_lo mock_hi lt] obtain out h' where
    "date_filter mock_library (Some ''2024-01'') (Some ''2024-03'') 0 [mock_frame] = (Inr out, h')"
    "rows (h' ! out) = map (filtered_row mock_library)
        (filter (retained mock_library (Some (2024, 1)) (Some (2024, 3))) (rows ([mock_frame] ! 0)))"
    by blast
  then have "\<exists>out h'. date_filter mock_library (Some ''2024-01'') (Some ''2024-03'') 0 [mock_frame] =
        (Inr out, h') \<and>
      map (\<lambda>r. cell r ''ply'') (rows (h' ! out)) = [VInt 2, VInt 3]"
    using mock_retained_plies by auto
  moreover have "map (\<lambda>r. cell r ''date'') (rows mock_frame) =
     [VStr ''2023.12.31'', VStr ''2024.01.15'', VStr ''2024.03.31'', VStr ''2024.04.01'']"
    by (simp add: mock_frame_def mock_rows_def cell_def)
  ultimately show ?thesis by simp
qed

section \<open>The enriched frame\<close>

lemma process_row_string:
  assumes "''fen'' \<in> set cols" and "has_fen_string r"
  shows "\<exists>st'. process_row L cols n i r st = Inr st'"
proof -
  from assms(2) obtain s where s: "cell r ''fen'' = VStr s"
    by (cases "cell r ''fen''") (simp_all add: has_fen_string_def)
  obtain b where b: "is_valid_fen L (cell r ''fen'') = Inr b"
    using is_valid_fen_total by blast
  show ?thesis
  proof (cases b)
    case True
    with b process_row_valid[OF assms(1), of L r n i st] show ?thesis by simp
  next
    case False
    with b process_row_invalid[OF assms(1), of L r n i st] s show ?thesis
      by (simp add: slice50_def)
  qed
qed

lemma iterrows_loop_total:
  assumes "''fen'' \<in> set cols"
  shows "list_all has_fen_string rs \<Longrightarrow> \<exists>st'. iterrows_loop L cols n i rs st = (Inr (), st')"
proof (induction rs arbitrary: i st)
  case Nil
  then show ?case by simp
next
  case (Cons r rs)
  then have "has_fen_string r" "list_all has_fen_string rs" by simp_all
  from process_row_string[OF assms this(1), of L n i st] obtain st1 where
    "process_row L cols n i r st = Inr st1" by blast
  moreover from Cons.IH[OF \<open>list_all has_fen_string rs\<close>, of "i + 1" st1] obtain st' where
    "iterrows_loop L cols n (i + 1) rs st1 = (Inr (), st')" by blast
  ultimately show ?case by simp
qed

lemma date_filter_copy:
  assumes "date_filter_passes L start_date end_date f"
  shows "\<exists>out h1. date_filter L start_date end_date (length h) (h @ [f]) = (Inr out, h1) \<and>
           length h \<le> out \<and> out < length h1 \<and>
           h1 ! out = date_filtered L start_date end_date f \<and>
           (\<forall>a < length h. h1 ! a = h ! a)"
proof (cases "start_date = None \<and> end_date = None")
  case True
  then have "date_filter L start_date end_date (length h) (h @ [f]) = (Inr (length h), h @ [f])"
    by (simp add: date_filter_none)
  moreover have "(h @ [f]) ! length h = date_filtered L start_date end_date f"
    using True by (simp add: date_filtered_def)
  moreover have "\<forall>a < length h. (h @ [f]) ! a = h ! a" by (simp add: nth_append)
  ultimately show ?thesis by (intro exI[of _ "length h"] exI[of _ "h @ [f]"]) simp
next
  case False
  then have given: "start_date \<noteq> None \<or> end_date \<noteq> None" by simp
  let ?h0 = "h @ [f]"
  from assms False have col: "''date'' \<in> set (columns (?h0 ! length h))"
    and parse: "list_all (\<lambda>r. \<not> isl (pd_to_datetime L (cell r ''date''))) (rows (?h0 ! length h))"
    and lo: "bound_parses L start_date" and hi: "bound_parses L end_date"
    by (simp_all add: date_filter_passes_def)
  have lt: "length h < length ?h0" by simp
  from date_filter_run[OF given col parse lo hi lt] obtain out fs where
    r: "date_filter L start_date end_date (length h) ?h0 =
          (Inr out, ?h0[length h := with_year_month L (?h0 ! length h)] @ fs)"
    and o1: "length ?h0 \<le> out"
    and o2: "out < length (?h0[length h := with_year_month L (?h0 ! length h)] @ fs)"
    and o3: "(?h0[length h := with_year_month L (?h0 ! length h)] @ fs) ! out =
               filtered_frame L start_date end_date (?h0 ! length h)" by blast
  let ?h1 = "?h0[length h := with_year_month L (?h0 ! length h)] @ fs"
  have dfe: "date_filtered L start_date end_date f = filtered_frame L start_date end_date f"
    unfolding date_filtered_def by (rule if_not_P[OF False])
  have "?h1 ! out = date_filtered L start_date end_date f"
    using o3 by (simp add: dfe)
  moreover have "\<forall>a < length h. ?h1 ! a = h ! a" by (simp add: nth_append)
  moreover have "length h \<le> out" using o1 by simp
  ultimately show ?thesis using r o2 by blast
qed

lemma add_eval_run:
  assumes d: "date_filter L start_date end_date (length h) (h @ [h ! move_df]) = (Inr df, h1)"
    and sf: "Stockfish L STOCK_PATH depth = Inr sf"
    and loop: "iterrows_loop L (columns (h1 ! df)) (length (rows (h1 ! df))) 0 (rows (h1 ! df))
                 \<lparr>evals = [], invalid_count = 0, stockfish = sf,
                   trace = [StockfishStart STOCK_PATH depth]\<rparr> = (Inr (), st)"
  shows "add_eval L move_df depth start_date end_date h =
           (Inr df, h1[df := assign_column ''eval'' (evals st) (h1 ! df)],
            trace st @
              [Print (CHR 0x0A # ''Completed: '' @ str_nat (length (rows (h1 ! df))) @ '' positions''),
               Print (''Invalid FENs: '' @ str_nat (invalid_count st))])"
proof -
  from iterrows_loop_evals[OF loop] have "length (evals st) = length (rows (h1 ! df))" by auto
  then have a: "assign_eval (evals st) (h1 ! df) = Inr (assign_column ''eval'' (evals st) (h1 ! df))"
    by (simp add: assign_eval_def)
  show ?thesis
    by (simp add: add_eval_def alloc_def d sf Let_def loop a)
qed

lemma filtered_row_fen: "cell (filtered_row L r) ''fen'' = cell r ''fen''"
  by (simp add: filtered_row_def cell_delete_other cell_update_other)

lemma date_filtered_fen:
  assumes "''fen'' \<in> set (columns f)" and "list_all has_fen_string (rows f)"
  shows "''fen'' \<in> set (columns (date_filtered L start_date end_date f)) \<and>
         list_all has_fen_string (rows (date_filtered L start_date end_date f))"
proof (cases "start_date = None \<and> end_date = None")
  case True
  with assms show ?thesis by (simp add: date_filtered_def)
next
  case False
  have "has_fen_string (filtered_row L r)" if "has_fen_string r" for r
    using that by (simp add: has_fen_string_def filtered_row_fen)
  with assms(2) have "list_all has_fen_string (map (filtered_row L) (filter (kept L start_date end_date) (rows f)))"
    by (simp add: list_all_iff)
  moreover have "date_filtered L start_date end_date f = filtered_frame L start_date end_date f"
    unfolding date_filtered_def by (rule if_not_P[OF False])
  ultimately show ?thesis using assms(1) by (simp add: filtered_frame_def)
qed

lemma add_eval_heap:
  assumes r: "add_eval L move_df depth start_date end_date h = (res, h', tr)"
  shows "(\<forall>a < length h. h' ! a = h ! a) \<and> (\<forall>out. res = Inr out \<longrightarrow> length h \<le> out)"
proof -
  let ?h0 = "h @ [h ! move_df]"
  obtain r1 h1 where d: "date_filter L start_date end_date (length h) ?h0 = (r1, h1)"
    by (cases "date_filter L start_date end_date (length h) ?h0")
  have "length h < length ?h0" by simp
  from date_filter_heap[OF d this]
  have k: "\<forall>a < length h. h1 ! a = h ! a"
    and o: "\<forall>out. r1 = Inr out \<longrightarrow> length h \<le> out"
    by (auto simp: nth_append)
  show ?thesis
  proof (cases r1)
    case (Inl e)
    with r d have "h' = h1" "res = Inl e" by (simp_all add: add_eval_def alloc_def)
    with k show ?thesis by simp
  next
    case (Inr df)
    with o have df: "length h \<le> df" by simp
    show ?thesis
    proof (cases "Stockfish L STOCK_PATH depth")
      case (Inl e)
      with r d Inr have "h' = h1" "res = Inl e" by (simp_all add: add_eval_def alloc_def)
      with k show ?thesis by simp
    next
      case sf: (Inr sf)
      obtain r2 st where l: "iterrows_loop L (columns (h1 ! df)) (length (rows (h1 ! df))) 0
          (rows (h1 ! df))
          \<lparr>evals = [], invalid_count = 0, stockfish = sf,
            trace = [StockfishStart STOCK_PATH depth]\<rparr> = (r2, st)"
        by (cases "iterrows_loop L (columns (h1 ! df)) (length (rows (h1 ! df))) 0
          (rows (h1 ! df))
          \<lparr>evals = [], invalid_count = 0, stockfish = sf,
            trace = [StockfishStart STOCK_PATH depth]\<rparr>")
      show ?thesis
      proof (cases r2)
        case (Inl e)
        with r d Inr sf l have "h' = h1" "res = Inl e"
          by (simp_all add: add_eval_def alloc_def Let_def)
        with k show ?thesis by simp
      next
        case u: (Inr u)
        show ?thesis
        proof (cases "assign_eval (evals st) (h1 ! df)")
          case (Inl e)
          with r d Inr sf l u have "h' = h1" "res = Inl e"
            by (simp_all add: add_eval_def alloc_def Let_def)
          with k show ?thesis by simp
        next
          case a: (Inr df')
          with r d Inr sf l u have "h' = h1[df := df']" "res = Inr df"
            by (simp_all add: add_eval_def alloc_def Let_def)
          with k df show ?thesis by simp
        qed
      qed
    qed
  qed
qed

lemma add_eval_success:
  assumes pass: "date_filter_passes L start_date end_date (h ! move_df)"
    and sf: "Stockfish L STOCK_PATH depth = Inr sf"
    and fen: "''fen'' \<in> set (columns (h ! move_df))"
    and str: "list_all has_fen_string (rows (h ! move_df))"
  shows "\<exists>out h' tr evs. add_eval L move_df depth start_date end_date h = (Inr out, h', tr) \<and>
      length evs = length (rows (date_filtered L start_date end_date (h ! move_df))) \<and>
      list_all (\<lambda>v. \<exists>ev. v = serialized ev) evs \<and>
      h' ! out = assign_column ''eval'' evs (date_filtered L start_date end_date (h ! move_df))"
proof -
  let ?f = "date_filtered L start_date end_date (h ! move_df)"
  from date_filter_copy[OF pass, of h] obtain out h1 where
    d: "date_filter L start_date end_date (length h) (h @ [h ! move_df]) = (Inr out, h1)"
    and o: "out < length h1" and f: "h1 ! out = ?f" by blast
  from date_filtered_fen[OF fen str, of L start_date end_date]
  have c: "''fen'' \<in> set (columns (h1 ! out))" and s: "list_all has_fen_string (rows (h1 ! out))"
    by (simp_all add: f)
  from iterrows_loop_total[OF c s] obtain st where
    l: "iterrows_loop L (columns (h1 ! out)) (length (rows (h1 ! out))) 0 (rows (h1 ! out))
          \<lparr>evals = [], invalid_count = 0, stockfish = sf,
            trace = [StockfishStart STOCK_PATH depth]\<rparr> = (Inr (), st)" by blast
  from iterrows_loop_evals[OF l]
  have e: "length (evals st) = length (rows ?f)" "list_all (\<lambda>v. \<exists>ev. v = serialized ev) (evals st)"
    by (auto simp: f list_all_iff)
  note run = add_eval_run[OF d sf l]
  have "(h1[out := assign_column ''eval'' (evals st) (h1 ! out)]) ! out =
      assign_column ''eval'' (evals st) ?f"
    using o by (simp add: f)
  with run e show ?thesis by blast
qed

lemma delete_assigned:
  "length rs = length vs \<Longrightarrow>
   map (AList.delete c) (map (\<lambda>(r, v). AList.update c v r) (zip rs vs)) = map (AList.delete c) rs"
  by (induction rs vs rule: list_induct2) (simp_all add: delete_update_same)

lemma lookup_assigned:
  "length rs = length vs \<Longrightarrow>
   map (\<lambda>r. map_of r c) (map (\<lambda>(r, v). AList.update c v r) (zip rs vs)) = map Some vs"
  by (induction rs vs rule: list_induct2) (simp_all add: update_conv')

lemma cell_assigned:
  assumes "length rs = length vs" and "i < length rs" and "c' \<noteq> c"
  shows "cell (map (\<lambda>(r, v). AList.update c v r) (zip rs vs) ! i) c' = cell (rs ! i) c'"
  using assms by (simp add: cell_update_other)

lemma mock_passes_range:
  "date_filter_passes mock_library (Some ''2024-01'') (Some ''2024-03'') mock_frame"
  by code_simp

lemma mock_strings: "list_all has_fen_string (rows mock_frame)"
  by code_simp

lemma mock_filtered_length:
  "length (rows (date_filtered mock_library (Some ''2024-01'') (Some ''2024-03'') mock_frame)) = 2"
  by code_simp

text \<open>
  Claim C1. When the date filter passes, the engine starts and every record has a
  string for its \<^verbatim>\<open>fen\<close>, the stage returns a frame: its records are the records of the
  date-filtered input (all the input records when no range is supplied), in the same
  order and number, each with its \<^verbatim>\<open>eval\<close> set to one evaluation value, a score, a mate
  marker or the null marker, and otherwise as the filter left it.
\<close>

theorem add_eval_output:
  assumes pass: "date_filter_passes L start_date end_date (h ! move_df)"
    and sf: "Stockfish L STOCK_PATH depth = Inr sf"
    and fen: "''fen'' \<in> set (columns (h ! move_df))"
    and str: "list_all has_fen_string (rows (h ! move_df))"
  shows "\<exists>out h' tr evs. add_eval L move_df depth start_date end_date h = (Inr out, h', tr) \<and>
      rows (date_filtered L start_date end_date (h ! move_df)) =
        (if start_date = None \<and> end_date = None then rows (h ! move_df)
         else map (filtered_row L) (filter (kept L start_date end_date) (rows (h ! move_df)))) \<and>
      length evs = length (rows (date_filtered L start_date end_date (h ! move_df))) \<and>
      rows (h' ! out) =
        map (\<lambda>(r, v). AList.update ''eval'' v r)
          (zip (rows (date_filtered L start_date end_date (h ! move_df))) evs) \<and>
      columns (h' ! out) =
        add_column ''eval'' (columns (date_filtered L start_date end_date (h ! move_df))) \<and>
      length (rows (h' ! out)) = length (rows (date_filtered L start_date end_date (h ! move_df))) \<and>
      (start_date = None \<and> end_date = None \<longrightarrow>
         length (rows (h' ! out)) = length (rows (h ! move_df))) \<and>
      map (AList.delete ''eval'') (rows (h' ! out)) =
        map (AList.delete ''eval'') (rows (date_filtered L start_date end_date (h ! move_df))) \<and>
      map (\<lambda>r. map_of r ''eval'') (rows (h' ! out)) = map Some evs \<and>
      list_all (\<lambda>v. \<exists>ev. v = serialized ev) evs"
proof -
  let ?f = "date_filtered L start_date end_date (h ! move_df)"
  from add_eval_success[OF pass sf fen str] obtain out h' tr evs where
    r: "add_eval L move_df depth start_date end_date h = (Inr out, h', tr)"
    and n: "length evs = length (rows ?f)"
    and s: "list_all (\<lambda>v. \<exists>ev. v = serialized ev) evs"
    and f: "h' ! out = assign_column ''eval'' evs ?f" by blast
  have rows: "rows (h' ! out) = map (\<lambda>(r, v). AList.update ''eval'' v r) (zip (rows ?f) evs)"
    by (simp add: f assign_column_def)
  have n': "length (rows ?f) = length evs" using n by simp
  show ?thesis
  proof (intro exI conjI impI)
    show "add_eval L move_df depth start_date end_date h = (Inr out, h', tr)" by (rule r)
    show "rows ?f = (if start_date = None \<and> end_date = None then rows (h ! move_df)
         else map (filtered_row L) (filter (kept L start_date end_date) (rows (h ! move_df))))"
      by (simp add: date_filtered_def filtered_frame_def)
    show "length evs = length (rows ?f)" by (rule n)
    show "rows (h' ! out) = map (\<lambda>(r, v). AList.update ''eval'' v r) (zip (rows ?f) evs)"
      by (rule rows)
    show "columns (h' ! out) = add_column ''eval'' (columns ?f)"
      by (simp add: f assign_column_def)
    show "length (rows (h' ! out)) = length (rows ?f)" by (simp add: rows n)
    show "length (rows (h' ! out)) = length (rows (h ! move_df))"
      if "start_date = None \<and> end_date = None"
      using that by (simp add: rows n date_filtered_def)
    show "map (AList.delete ''eval'') (rows (h' ! out)) = map (AList.delete ''eval'') (rows ?f)"
      unfolding rows by (rule delete_assigned[OF n'])
    show "map (\<lambda>r. map_of r ''eval'') (rows (h' ! out)) = map Some evs"
      unfolding rows by (rule lookup_assigned[OF n'])
    show "list_all (\<lambda>v. \<exists>ev. v = serialized ev) evs" by (rule s)
  qed
qed

theorem add_eval_output_witness:
  "date_filter_passes mock_library (Some ''2024-01'') (Some ''2024-03'') mock_frame \<and>
   list_all has_fen_string (rows mock_frame) \<and>
   (\<exists>out h' tr. add_eval mock_library 0 15 (Some ''2024-01'') (Some ''2024-03'') [mock_frame] =
        (Inr out, h', tr) \<and> length (rows (h' ! out)) = 2) \<and>
   (\<exists>out h' tr. add_eval mock_library 0 15 None None [mock_frame] = (Inr out, h', tr) \<and>
        length (rows (h' ! out)) = 4)"
proof -
  have p1: "date_filter_passes mock_library (Some ''2024-01'') (Some ''2024-03'') ([mock_frame] ! 0)"
    using mock_passes_range by simp
  have p2: "date_filter_passes mock_library None None ([mock_frame] ! 0)"
    by (simp add: date_filter_passes_def)
  have sf: "Stockfish mock_library STOCK_PATH 15 = Inr []" by (rule mock_Stockfish)
  have c: "''fen'' \<in> set (columns ([mock_frame] ! 0))" by (simp add: mock_frame_def)
  have s: "list_all has_fen_string (rows ([mock_frame] ! 0))" using mock_strings by simp
  from add_eval_output[OF p1 sf c s] obtain out h' tr where
    "add_eval mock_library 0 15 (Some ''2024-01'') (Some ''2024-03'') [mock_frame] = (Inr out, h', tr)"
    "length (rows (h' ! out)) =
       length (rows (date_filtered mock_library (Some ''2024-01'') (Some ''2024-03'') ([mock_frame] ! 0)))"
    by blast
  then have 1: "\<exists>out h' tr. add_eval mock_library 0 15 (Some ''2024-01'') (Some ''2024-03'') [mock_frame] =
        (Inr out, h', tr) \<and> length (rows (h' ! out)) = 2"
    using mock_filtered_length by auto
  from add_eval_output[OF p2 sf c s] obtain out h' tr where
    "add_eval mock_library 0 15 None None [mock_frame] = (Inr out, h', tr)"
    "length (rows (h' ! out)) = length (rows ([mock_frame] ! 0))"
    by blast
  then have 2: "\<exists>out h' tr. add_eval mock_library 0 15 None None [mock_frame] = (Inr out, h', tr) \<and>
        length (rows (h' ! out)) = 4"
    by (auto simp: mock_frame_def mock_rows_def)
  from mock_passes_range mock_strings 1 2 show ?thesis by simp
qed

lemma mock_ym_result:
  "fst (add_eval mock_library 0 15 (Some ''2024-01'') None [mock_frame_ym]) = Inr 3"
  by code_simp

lemma mock_ym_rows:
  "rows (fst (snd (add_eval mock_library 0 15 (Some ''2024-01'') None [mock_frame_ym])) ! 3) =
     [[(''fen'', VStr fen_start),
       (''date'', VTimestamp \<lparr>ts_year = 2024, ts_month = 1, ts_day = 15, ts_time = 0\<rparr>),
       (''eval'', VFloat (5 / 2))]]"
  by code_simp

lemma mock_survivors:
  "surviving_rows mock_library (Some ''2024-01'') (Some ''2024-03'') mock_frame =
     [[(''ply'', VInt 2), (''fen'', VStr fen_e4), (''date'', VStr ''2024.01.15'')],
      [(''ply'', VInt 3), (''fen'', VStr ''not a fen''), (''date'', VStr ''2024.03.31'')]]"
  by code_simp

text \<open>
  Claim C8, as the code has it. The stage never changes a frame that existed before the
  call, whether it returns or raises, and the frame it returns is a new one. In the
  returned frame every attribute other than \<^verbatim>\<open>eval\<close>, \<^verbatim>\<open>date\<close> and \<^verbatim>\<open>year_month\<close>
  is that of the surviving input record at the same place; without a date range this
  holds for every attribute other than \<^verbatim>\<open>eval\<close>. With a date range the \<^verbatim>\<open>date\<close> of a
  returned record is the date as \<^verbatim>\<open>pd.to_datetime\<close> parsed it, and the frame has no
  column \<^verbatim>\<open>year_month\<close>.
\<close>

theorem add_eval_copy_on_write:
  "(\<forall>res h' tr. add_eval L move_df depth start_date end_date h = (res, h', tr) \<longrightarrow>
      (\<forall>a < length h. h' ! a = h ! a) \<and> (\<forall>out. res = Inr out \<longrightarrow> length h \<le> out)) \<and>
   (date_filter_passes L start_date end_date (h ! move_df) \<longrightarrow>
    Stockfish L STOCK_PATH depth = Inr sf \<longrightarrow>
    ''fen'' \<in> set (columns (h ! move_df)) \<longrightarrow>
    list_all has_fen_string (rows (h ! move_df)) \<longrightarrow>
    (\<exists>out h' tr. add_eval L move_df depth start_date end_date h = (Inr out, h', tr) \<and>
       length (rows (h' ! out)) = length (surviving_rows L start_date end_date (h ! move_df)) \<and>
       (\<forall>i c. i < length (rows (h' ! out)) \<longrightarrow>
          c \<noteq> ''eval'' \<longrightarrow> c \<noteq> ''date'' \<longrightarrow> c \<noteq> ''year_month'' \<longrightarrow>
          cell (rows (h' ! out) ! i) c =
            cell (surviving_rows L start_date end_date (h ! move_df) ! i) c) \<and>
       (start_date = None \<and> end_date = None \<longrightarrow>
          (\<forall>i c. i < length (rows (h' ! out)) \<longrightarrow> c \<noteq> ''eval'' \<longrightarrow>
             cell (rows (h' ! out) ! i) c = cell (rows (h ! move_df) ! i) c)) \<and>
       (start_date \<noteq> None \<or> end_date \<noteq> None \<longrightarrow>
          ''year_month'' \<notin> set (columns (h' ! out)) \<and>
          (\<forall>i. i < length (rows (h' ! out)) \<longrightarrow>
             cell (rows (h' ! out) ! i) ''date'' =
               parsed_date L (surviving_rows L start_date end_date (h ! move_df) ! i) \<and>
             map_of (rows (h' ! out) ! i) ''year_month'' = None))))"
proof (intro conjI allI impI)
  fix res h' tr a
  assume r: "add_eval L move_df depth start_date end_date h = (res, h', tr)"
  { assume "a < length h"
    with add_eval_heap[OF r] show "h' ! a = h ! a" by simp }
  { fix out assume "res = Inr out"
    with add_eval_heap[OF r] show "length h \<le> out" by simp }
next
  assume pass: "date_filter_passes L start_date end_date (h ! move_df)"
    and sf: "Stockfish L STOCK_PATH depth = Inr sf"
    and fen: "''fen'' \<in> set (columns (h ! move_df))"
    and str: "list_all has_fen_string (rows (h ! move_df))"
  let ?f = "date_filtered L start_date end_date (h ! move_df)"
  let ?s = "surviving_rows L start_date end_date (h ! move_df)"
  from add_eval_success[OF pass sf fen str] obtain out h' tr evs where
    r: "add_eval L move_df depth start_date end_date h = (Inr out, h', tr)"
    and n: "length evs = length (rows ?f)"
    and f: "h' ! out = assign_column ''eval'' evs ?f" by blast
  have rows: "rows (h' ! out) = map (\<lambda>(r, v). AList.update ''eval'' v r) (zip (rows ?f) evs)"
    by (simp add: f assign_column_def)
  have n': "length (rows ?f) = length evs" using n by simp
  have len: "length (rows (h' ! out)) = length (rows ?f)" by (simp add: rows n)
  have ls: "length (rows ?f) = length ?s"
    by (simp add: date_filtered_def filtered_frame_def surviving_rows_def)
  have none: "rows ?f = rows (h ! move_df)" if "start_date = None \<and> end_date = None"
    using that by (simp add: date_filtered_def)
  have some: "rows ?f = map (filtered_row L) ?s \<and>
              columns ?f = removeAll ''year_month'' (columns (h ! move_df))"
    if "start_date \<noteq> None \<or> end_date \<noteq> None"
  proof -
    from that have "\<not> (start_date = None \<and> end_date = None)" by simp
    then have "?f = filtered_frame L start_date end_date (h ! move_df)"
      "?s = filter (kept L start_date end_date) (rows (h ! move_df))"
      unfolding date_filtered_def surviving_rows_def by (simp_all only: if_not_P if_False)
    then show ?thesis by (simp add: filtered_frame_def)
  qed
  have other: "cell (rows (h' ! out) ! i) c = cell (rows ?f ! i) c"
    if "i < length (rows (h' ! out))" "c \<noteq> ''eval''" for i c
    unfolding rows using that len by (intro cell_assigned[OF n']) simp_all
  have pass_through: "cell (rows ?f ! i) c = cell (?s ! i) c"
    if "i < length (rows ?f)" "c \<noteq> ''date''" "c \<noteq> ''year_month''" for i c
  proof (cases "start_date = None \<and> end_date = None")
    case True
    then show ?thesis by (simp add: date_filtered_def surviving_rows_def)
  next
    case False
    then have g: "start_date \<noteq> None \<or> end_date \<noteq> None" by simp
    from that(1) ls have "i < length ?s" by simp
    with some[OF g] have "rows ?f ! i = filtered_row L (?s ! i)" by simp
    with that(2,3) show ?thesis
      by (simp add: filtered_row_def cell_delete_other cell_update_other)
  qed
  show "\<exists>out h' tr. add_eval L move_df depth start_date end_date h = (Inr out, h', tr) \<and>
       length (rows (h' ! out)) = length ?s \<and>
       (\<forall>i c. i < length (rows (h' ! out)) \<longrightarrow>
          c \<noteq> ''eval'' \<longrightarrow> c \<noteq> ''date'' \<longrightarrow> c \<noteq> ''year_month'' \<longrightarrow>
          cell (rows (h' ! out) ! i) c = cell (?s ! i) c) \<and>
       (start_date = None \<and> end_date = None \<longrightarrow>
          (\<forall>i c. i < length (rows (h' ! out)) \<longrightarrow> c \<noteq> ''eval'' \<longrightarrow>
             cell (rows (h' ! out) ! i) c = cell (rows (h ! move_df) ! i) c)) \<and>
       (start_date \<noteq> None \<or> end_date \<noteq> None \<longrightarrow>
          ''year_month'' \<notin> set (columns (h' ! out)) \<and>
          (\<forall>i. i < length (rows (h' ! out)) \<longrightarrow>
             cell (rows (h' ! out) ! i) ''date'' = parsed_date L (?s ! i) \<and>
             map_of (rows (h' ! out) ! i) ''year_month'' = None))"
  proof (intro exI conjI allI impI)
    show "add_eval L move_df depth start_date end_date h = (Inr out, h', tr)" by (rule r)
    show "length (rows (h' ! out)) = length ?s" using len ls by simp
    show "cell (rows (h' ! out) ! i) c = cell (?s ! i) c"
      if "i < length (rows (h' ! out))" "c \<noteq> ''eval''" "c \<noteq> ''date''" "c \<noteq> ''year_month''" for i c
      using other[OF that(1,2)] pass_through[of i c] that len by simp
    show "cell (rows (h' ! out) ! i) c = cell (rows (h ! move_df) ! i) c"
      if "start_date = None \<and> end_date = None" "i < length (rows (h' ! out))" "c \<noteq> ''eval''" for i c
      using other[OF that(2,3)] none[OF that(1)] by simp
    show "''year_month'' \<notin> set (columns (h' ! out))"
      if "start_date \<noteq> None \<or> end_date \<noteq> None"
      using some[OF that] by (simp add: f assign_column_def add_column_def)
    show "cell (rows (h' ! out) ! i) ''date'' = parsed_date L (?s ! i)"
      if "start_date \<noteq> None \<or> end_date \<noteq> None" "i < length (rows (h' ! out))" for i
    proof -
      from that(2) len ls have "i < length ?s" by simp
      with some[OF that(1)] have "rows ?f ! i = filtered_row L (?s ! i)" by simp
      then have "cell (rows ?f ! i) ''date'' = parsed_date L (?s ! i)"
        by (simp add: filtered_row_def cell_delete_other cell_update_same)
      with other[OF that(2), of "''date''"] show ?thesis by simp
    qed
    show "map_of (rows (h' ! out) ! i) ''year_month'' = None"
      if "start_date \<noteq> None \<or> end_date \<noteq> None" "i < length (rows (h' ! out))" for i
    proof -
      from that(2) len ls have i: "i < length ?s" "i < length (rows ?f)" "i < length evs"
        using n by simp_all
      with some[OF that(1)] have "rows ?f ! i = filtered_row L (?s ! i)" by simp
      with i have "rows (h' ! out) ! i = AList.update ''eval'' (evs ! i) (filtered_row L (?s ! i))"
        by (simp add: rows)
      then show ?thesis by (simp add: update_conv' filtered_row_def delete_conv')
    qed
  qed
qed

theorem add_eval_copy_on_write_witness:
  "fst (snd (add_eval mock_library 0 15 (Some ''2024-01'') (Some ''2024-03'') [mock_frame])) ! 0 =
     mock_frame \<and>
   (\<exists>out h' tr. add_eval mock_library 0 15 (Some ''2024-01'') (Some ''2024-03'') [mock_frame] =
        (Inr out, h', tr) \<and>
      length (rows (h' ! out)) = 2 \<and>
      cell (rows (h' ! out) ! 0) ''ply'' = VInt 2 \<and>
      cell (rows (h' ! out) ! 1) ''fen'' = VStr ''not a fen'')"
proof -
  let ?run = "add_eval mock_library 0 15 (Some ''2024-01'') (Some ''2024-03'') [mock_frame]"
  note t = add_eval_copy_on_write[of mock_library 0 15 "Some ''2024-01''" "Some ''2024-03''"
      "[mock_frame]" "[]"]
  have "?run = (fst ?run, fst (snd ?run), snd (snd ?run))" by simp
  with t have "\<forall>a < length [mock_frame]. fst (snd ?run) ! a = [mock_frame] ! a" by blast
  then have 1: "fst (snd ?run) ! 0 = mock_frame" by simp
  have p: "date_filter_passes mock_library (Some ''2024-01'') (Some ''2024-03'') ([mock_frame] ! 0)"
    using mock_passes_range by simp
  have sf: "Stockfish mock_library STOCK_PATH 15 = Inr []" by (rule mock_Stockfish)
  have c: "''fen'' \<in> set (columns ([mock_frame] ! 0))" by (simp add: mock_frame_def)
  have s: "list_all has_fen_string (rows ([mock_frame] ! 0))" using mock_strings by simp
  let ?s = "surviving_rows mock_library (Some ''2024-01'') (Some ''2024-03'') ([mock_frame] ! 0)"
  from t p sf c s obtain out h' tr where
    r: "?run = (Inr out, h', tr)"
    and n: "length (rows (h' ! out)) = length ?s"
    and k: "\<forall>i c. i < length (rows (h' ! out)) \<longrightarrow>
          c \<noteq> ''eval'' \<longrightarrow> c \<noteq> ''date'' \<longrightarrow> c \<noteq> ''year_month'' \<longrightarrow>
          cell (rows (h' ! out) ! i) c = cell (?s ! i) c"
    by blast
  from n have n2: "length (rows (h' ! out)) = 2" by (simp add: mock_survivors)
  from k n2 have "cell (rows (h' ! out) ! 0) ''ply'' = cell (?s ! 0) ''ply''"
    "cell (rows (h' ! out) ! 1) ''fen'' = cell (?s ! 1) ''fen''" by simp_all
  then have "cell (rows (h' ! out) ! 0) ''ply'' = VInt 2"
    "cell (rows (h' ! out) ! 1) ''fen'' = VStr ''not a fen''"
    by (simp_all add: mock_survivors cell_def)
  with r n2 1 show ?thesis by blast
qed

text \<open>
  Claim C8, as it was stated, fails: with a date range, the \<^verbatim>\<open>date\<close> string of a record
  comes back as a timestamp, and a \<^verbatim>\<open>year_month\<close> attribute of the input is gone.
\<close>

theorem date_attribute_is_rewritten:
  "fst (add_eval mock_library 0 15 (Some ''2024-01'') None [mock_frame_ym]) = Inr 3 \<and>
   rows mock_frame_ym =
     [[(''fen'', VStr fen_start), (''date'', VStr ''2024.01.15''),
       (''year_month'', VStr ''January'')]] \<and>
   rows (fst (snd (add_eval mock_library 0 15 (Some ''2024-01'') None [mock_frame_ym])) ! 3) =
     [[(''fen'', VStr fen_start),
       (''date'', VTimestamp \<lparr>ts_year = 2024, ts_month = 1, ts_day = 15, ts_time = 0\<rparr>),
       (''eval'', VFloat (5 / 2))]] \<and>
   \<not> (\<forall>c. c \<noteq> ''eval'' \<longrightarrow>
        cell (hd (rows (fst (snd (add_eval mock_library 0 15 (Some ''2024-01'') None
                                   [mock_frame_ym])) ! 3))) c =
        cell (hd (rows mock_frame_ym)) c)"
proof (intro conjI)
  show "fst (add_eval mock_library 0 15 (Some ''2024-01'') None [mock_frame_ym]) = Inr 3"
    by (rule mock_ym_result)
  show i: "rows mock_frame_ym =
     [[(''fen'', VStr fen_start), (''date'', VStr ''2024.01.15''),
       (''year_month'', VStr ''January'')]]"
    by (simp add: mock_frame_ym_def)
  show "rows (fst (snd (add_eval mock_library 0 15 (Some ''2024-01'') None [mock_frame_ym])) ! 3) =
     [[(''fen'', VStr fen_start),
       (''date'', VTimestamp \<lparr>ts_year = 2024, ts_month = 1, ts_day = 15, ts_time = 0\<rparr>),
       (''eval'', VFloat (5 / 2))]]"
    by (rule mock_ym_rows)
  have "cell (hd (rows (fst (snd (add_eval mock_library 0 15 (Some ''2024-01'') None
                                   [mock_frame_ym])) ! 3))) ''date'' \<noteq>
        cell (hd (rows mock_frame_ym)) ''date''"
    unfolding mock_ym_rows i by (simp add: cell_def)
  then show "\<not> (\<forall>c. c \<noteq> ''eval'' \<longrightarrow>
        cell (hd (rows (fst (snd (add_eval mock_library 0 15 (Some ''2024-01'') None
                                   [mock_frame_ym])) ! 3))) c =
        cell (hd (rows mock_frame_ym)) c)"
    by (intro notI) (drule spec[of _ "''date''"], simp)
qed

section \<open>Invalid positions and engine failures in the returned frame\<close>

lemma try_evaluate_outcome:
  "evals (try_evaluate L i fen st) = evals st @ [fst (row_outcome L fen (stockfish st))] \<and>
   stockfish (try_evaluate L i fen st) = snd (row_outcome L fen (stockfish st))"
proof (cases "set_fen_position L (stockfish st) fen")
  case (Pair eo sf1)
  show ?thesis
  proof (cases eo)
    case None
    show ?thesis
    proof (cases "get_evaluation L sf1")
      case p: (Pair res sf2)
      show ?thesis
      proof (cases res)
        case (Inl e)
        with Pair None p show ?thesis
          by (simp add: try_evaluate_def on_exception_def row_outcome_def)
      next
        case (Inr ev)
        with Pair None p show ?thesis
          by (simp add: try_evaluate_def row_outcome_def)
      qed
    qed
  next
    case (Some e)
    with Pair show ?thesis
      by (simp add: try_evaluate_def on_exception_def row_outcome_def)
  qed
qed

lemma process_row_step:
  assumes c: "''fen'' \<in> set cols" and s: "has_fen_string r"
  shows "\<exists>st'. process_row L cols n i r st = Inr st' \<and>
           evals st' = evals st @ [fst (row_step L r (stockfish st))] \<and>
           stockfish st' = snd (row_step L r (stockfish st))"
proof -
  from s obtain x where x: "cell r ''fen'' = VStr x"
    by (cases "cell r ''fen''") (simp_all add: has_fen_string_def)
  obtain b where b: "is_valid_fen L (cell r ''fen'') = Inr b"
    using is_valid_fen_total by blast
  show ?thesis
  proof (cases b)
    case True
    with b have v: "is_valid_fen L (cell r ''fen'') = Inr True" by simp
    let ?st' = "report_progress n i (try_evaluate L i (cell r ''fen'') st)"
    have "process_row L cols n i r st = Inr ?st'" by (rule process_row_valid[OF c v])
    moreover have "evals ?st' = evals st @ [fst (row_step L r (stockfish st))]"
      using try_evaluate_outcome[of L i "cell r ''fen''" st]
      by (simp add: report_progress_fields row_step_def v)
    moreover have "stockfish ?st' = snd (row_step L r (stockfish st))"
      using try_evaluate_outcome[of L i "cell r ''fen''" st]
      by (simp add: report_progress_fields row_step_def v)
    ultimately show ?thesis by blast
  next
    case False
    with b have v: "is_valid_fen L (cell r ''fen'') = Inr False" by simp
    let ?st' = "st\<lparr>trace := trace st @
                    [Print (''Invalid FEN at position '' @ str_nat i @ '': '' @ take 50 x @ ''...'')],
                  evals := evals st @ [VNone],
                  invalid_count := invalid_count st + 1\<rparr>"
    have "process_row L cols n i r st = Inr ?st'"
      using process_row_invalid[OF c v, of n i st] x by (simp add: slice50_def)
    moreover have "evals ?st' = evals st @ [fst (row_step L r (stockfish st))]"
      by (simp add: row_step_def v)
    moreover have "stockfish ?st' = snd (row_step L r (stockfish st))"
      by (simp add: row_step_def v)
    ultimately show ?thesis by blast
  qed
qed

lemma iterrows_loop_evals_eq:
  assumes c: "''fen'' \<in> set cols"
  shows "list_all has_fen_string rs \<Longrightarrow>
     \<exists>st'. iterrows_loop L cols n i rs st = (Inr (), st') \<and>
       evals st' = evals st @ fst (loop_evals L rs (stockfish st)) \<and>
       stockfish st' = snd (loop_evals L rs (stockfish st))"
proof (induction rs arbitrary: i st)
  case Nil
  then show ?case by simp
next
  case (Cons r rs)
  then have s: "has_fen_string r" and ss: "list_all has_fen_string rs" by simp_all
  from process_row_step[OF c s, of L n i st] obtain st1 where
    p: "process_row L cols n i r st = Inr st1"
    and e1: "evals st1 = evals st @ [fst (row_step L r (stockfish st))]"
    and f1: "stockfish st1 = snd (row_step L r (stockfish st))" by blast
  from Cons.IH[OF ss, of "i + 1" st1] obtain st' where
    l: "iterrows_loop L cols n (i + 1) rs st1 = (Inr (), st')"
    and e2: "evals st' = evals st1 @ fst (loop_evals L rs (stockfish st1))"
    and f2: "stockfish st' = snd (loop_evals L rs (stockfish st1))" by blast
  have "iterrows_loop L cols n i (r # rs) st = (Inr (), st')" using p l by simp
  moreover have "evals st' = evals st @ fst (loop_evals L (r # rs) (stockfish st))"
    using e1 e2 f1 by (simp add: split_beta Let_def)
  moreover have "stockfish st' = snd (loop_evals L (r # rs) (stockfish st))"
    using f2 f1 by (simp add: split_beta Let_def)
  ultimately show ?case by blast
qed

lemma loop_evals_length: "length (fst (loop_evals L rs sf)) = length rs"
  by (induction rs arbitrary: sf) (simp_all add: split_beta Let_def)

lemma loop_evals_append:
  "loop_evals L (xs @ ys) sf =
     (fst (loop_evals L xs sf) @ fst (loop_evals L ys (snd (loop_evals L xs sf))),
      snd (loop_evals L ys (snd (loop_evals L xs sf))))"
  by (induction xs arbitrary: sf) (simp_all add: split_beta Let_def)

lemma eval_column_assigned:
  "length vs = length (rows f) \<Longrightarrow> eval_column (assign_column ''eval'' vs f) = vs"
proof -
  have "length rs = length vs \<Longrightarrow>
        map (\<lambda>r. cell r ''eval'') (map (\<lambda>(r, v). AList.update ''eval'' v r) (zip rs vs)) = vs"
    for rs :: "row list"
    by (induction rs vs rule: list_induct2) (simp_all add: cell_update_same)
  then show "length vs = length (rows f) \<Longrightarrow> eval_column (assign_column ''eval'' vs f) = vs"
    by (simp add: eval_column_def assign_column_def)
qed

lemma add_eval_evals:
  assumes pass: "date_filter_passes L start_date end_date (h ! move_df)"
    and sf: "Stockfish L STOCK_PATH depth = Inr sf"
    and fen: "''fen'' \<in> set (columns (h ! move_df))"
    and str: "list_all has_fen_string (rows (h ! move_df))"
  shows "\<exists>out h' tr. add_eval L move_df depth start_date end_date h = (Inr out, h', tr) \<and>
      eval_column (h' ! out) =
        fst (loop_evals L (rows (date_filtered L start_date end_date (h ! move_df))) sf)"
proof -
  let ?f = "date_filtered L start_date end_date (h ! move_df)"
  from date_filter_copy[OF pass, of h] obtain out h1 where
    d: "date_filter L start_date end_date (length h) (h @ [h ! move_df]) = (Inr out, h1)"
    and o: "out < length h1" and f: "h1 ! out = ?f" by blast
  from date_filtered_fen[OF fen str, of L start_date end_date]
  have c: "''fen'' \<in> set (columns (h1 ! out))" and s: "list_all has_fen_string (rows (h1 ! out))"
    by (simp_all add: f)
  let ?st0 = "\<lparr>evals = [], invalid_count = 0, stockfish = sf,
            trace = [StockfishStart STOCK_PATH depth]\<rparr>"
  from iterrows_loop_evals_eq[OF c s, of L "length (rows (h1 ! out))" 0 ?st0] obtain st where
    l: "iterrows_loop L (columns (h1 ! out)) (length (rows (h1 ! out))) 0 (rows (h1 ! out)) ?st0
          = (Inr (), st)"
    and e: "evals st = fst (loop_evals L (rows (h1 ! out)) sf)" by auto
  note run = add_eval_run[OF d sf l]
  have n: "length (evals st) = length (rows (h1 ! out))" by (simp add: e loop_evals_length)
  have "(h1[out := assign_column ''eval'' (evals st) (h1 ! out)]) ! out =
      assign_column ''eval'' (evals st) (h1 ! out)"
    using o by simp
  then have "eval_column ((h1[out := assign_column ''eval'' (evals st) (h1 ! out)]) ! out) =
      fst (loop_evals L (rows ?f) sf)"
    using eval_column_assigned[OF n] by (simp add: e f)
  with run show ?thesis by blast
qed











lemma invalid_string_fen_in_frame:
  assumes pass: "date_filter_passes L start_date end_date (h ! move_df)"
    and sf: "Stockfish L STOCK_PATH depth = Inr sf"
    and fen: "''fen'' \<in> set (columns (h ! move_df))"
    and str: "list_all has_fen_string (rows (h ! move_df))"
    and split: "rows (date_filtered L start_date end_date (h ! move_df)) = before @ r # after"
    and invalid: "is_valid_fen L (cell r ''fen'') = Inr False"
  shows "\<exists>out h' tr. add_eval L move_df depth start_date end_date h = (Inr out, h', tr) \<and>
           eval_column (h' ! out) =
             fst (loop_evals L before sf) @ [serialized Unavailable] @
             fst (loop_evals L after (snd (loop_evals L before sf)))"
proof -
  let ?sf1 = "snd (loop_evals L before sf)"
  have "row_step L r ?sf1 = (VNone, ?sf1)" using invalid by (simp add: row_step_def)
  then have "loop_evals L (r # after) ?sf1 =
      (VNone # fst (loop_evals L after ?sf1), snd (loop_evals L after ?sf1))"
    by (simp add: split_beta)
  then have e: "fst (loop_evals L (before @ r # after) sf) =
      fst (loop_evals L before sf) @ [serialized Unavailable] @ fst (loop_evals L after ?sf1)"
    by (simp add: loop_evals_append)
  from add_eval_evals[OF pass sf fen str] obtain out h' tr where
    "add_eval L move_df depth start_date end_date h = (Inr out, h', tr)"
    "eval_column (h' ! out) =
        fst (loop_evals L (rows (date_filtered L start_date end_date (h ! move_df))) sf)" by blast
  then show ?thesis using e by (simp add: split)
qed

lemma null_fen_run:
  "is_valid_fen mock_library VNone = Inr False \<and>
   add_eval mock_library 0 15 None None [mock_frame_null_fen] =
     (Inl (TypeError ''object is not subscriptable''),
      [mock_frame_null_fen, mock_frame_null_fen],
      [StockfishStart STOCK_PATH 15, SetFenPosition (VStr fen_start), GetEvaluation])"
  by code_simp

lemma bad_fen_run:
  "is_valid_fen mock_library (VStr ''not a fen'') = Inr False \<and>
   fst (add_eval mock_library 0 15 None None [mock_frame_bad_fen]) = Inr 1 \<and>
   map (\<lambda>r. (cell r ''ply'', cell r ''eval''))
     (rows (fst (snd (add_eval mock_library 0 15 None None [mock_frame_bad_fen])) ! 1)) =
     [(VInt 1, VFloat (5 / 2)), (VInt 2, VNone), (VInt 3, VStr ''M-3'')] \<and>
   snd (snd (add_eval mock_library 0 15 None None [mock_frame_bad_fen])) =
     [StockfishStart STOCK_PATH 15, SetFenPosition (VStr fen_start), GetEvaluation,
      Print ''Invalid FEN at position 1: not a fen...'',
      SetFenPosition (VStr fen_mate), GetEvaluation,
      Print (CHR 0x0A # ''Completed: 3 positions''), Print ''Invalid FENs: 1'']"
  by code_simp

text \<open>
  Claim C2. The stage run on three records without a date range, with the test doubles.
  When the \<^verbatim>\<open>fen\<close> of the second record is a null cell, the validator rejects it, and
  the slice \<^verbatim>\<open>fen[:50]\<close> in the message of line 77, which is outside the \<^verbatim>\<open>try\<close>, raises:
  the call ends with a \<open>TypeError\<close>, no frame is returned and the third record is not
  processed. When it is a string that is not a position, the stage records the null
  marker for it, counts it, does not call the engine for it and goes on with the third
  record.
\<close>

theorem null_fen_aborts_the_call:
  "is_valid_fen mock_library VNone = Inr False \<and>
   add_eval mock_library 0 15 None None [mock_frame_null_fen] =
     (Inl (TypeError ''object is not subscriptable''),
      [mock_frame_null_fen, mock_frame_null_fen],
      [StockfishStart STOCK_PATH 15, SetFenPosition (VStr fen_start), GetEvaluation]) \<and>
   is_valid_fen mock_library (VStr ''not a fen'') = Inr False \<and>
   fst (add_eval mock_library 0 15 None None [mock_frame_bad_fen]) = Inr 1 \<and>
   map (\<lambda>r. (cell r ''ply'', cell r ''eval''))
     (rows (fst (snd (add_eval mock_library 0 15 None None [mock_frame_bad_fen])) ! 1)) =
     [(VInt 1, VFloat (5 / 2)), (VInt 2, VNone), (VInt 3, VStr ''M-3'')] \<and>
   snd (snd (add_eval mock_library 0 15 None None [mock_frame_bad_fen])) =
     [StockfishStart STOCK_PATH 15, SetFenPosition (VStr fen_start), GetEvaluation,
      Print ''Invalid FEN at position 1: not a fen...'',
      SetFenPosition (VStr fen_mate), GetEvaluation,
      Print (CHR 0x0A # ''Completed: 3 positions''), Print ''Invalid FENs: 1'']"
  using null_fen_run bad_fen_run by (intro conjI) simp_all

end
